theory Spec2Isabelle
  imports Main "HOL-Library.Word"
begin

unbundle bit_operations_syntax

section \<open>Library functions used by snakemake/deployment/spack.py\<close>

text \<open>
  Python \<open>str\<close> and \<open>bytes\<close> are both modelled as \<open>string\<close> (a list of 8-bit
  characters): a \<open>str\<close> is identified with its UTF-8 encoding, so \<open>str.encode()\<close> is the
  identity and string concatenation is byte concatenation.
\<close>

definition encode :: "string \<Rightarrow> string" where
  "encode s = s"

subsection \<open>hashlib.md5 (RFC 1321) and hexdigest\<close>

type_synonym byte = "8 word"

definition md5_K :: "32 word list" where
  "md5_K =
    [0xd76aa478, 0xe8c7b756, 0x242070db, 0xc1bdceee, 0xf57c0faf, 0x4787c62a, 0xa8304613, 0xfd469501,
     0x698098d8, 0x8b44f7af, 0xffff5bb1, 0x895cd7be, 0x6b901122, 0xfd987193, 0xa679438e, 0x49b40821,
     0xf61e2562, 0xc040b340, 0x265e5a51, 0xe9b6c7aa, 0xd62f105d, 0x02441453, 0xd8a1e681, 0xe7d3fbc8,
     0x21e1cde6, 0xc33707d6, 0xf4d50d87, 0x455a14ed, 0xa9e3e905, 0xfcefa3f8, 0x676f02d9, 0x8d2a4c8a,
     0xfffa3942, 0x8771f681, 0x6d9d6122, 0xfde5380c, 0xa4beea44, 0x4bdecfa9, 0xf6bb4b60, 0xbebfbc70,
     0x289b7ec6, 0xeaa127fa, 0xd4ef3085, 0x04881d05, 0xd9d4d039, 0xe6db99e5, 0x1fa27cf8, 0xc4ac5665,
     0xf4292244, 0x432aff97, 0xab9423a7, 0xfc93a039, 0x655b59c3, 0x8f0ccc92, 0xffeff47d, 0x85845dd1,
     0x6fa87e4f, 0xfe2ce6e0, 0xa3014314, 0x4e0811a1, 0xf7537e82, 0xbd3af235, 0x2ad7d2bb, 0xeb86d391]"

definition md5_s :: "nat list" where
  "md5_s =
    [7, 12, 17, 22, 7, 12, 17, 22, 7, 12, 17, 22, 7, 12, 17, 22,
     5, 9, 14, 20, 5, 9, 14, 20, 5, 9, 14, 20, 5, 9, 14, 20,
     4, 11, 16, 23, 4, 11, 16, 23, 4, 11, 16, 23, 4, 11, 16, 23,
     6, 10, 15, 21, 6, 10, 15, 21, 6, 10, 15, 21, 6, 10, 15, 21]"

text \<open>The \<open>n\<close> low bytes of a word, least significant first.\<close>

definition le_bytes :: "nat \<Rightarrow> 'a::len word \<Rightarrow> byte list" where
  "le_bytes n w = map (\<lambda>i. ucast (drop_bit (8 * i) w)) [0..<n]"

definition le_word :: "byte list \<Rightarrow> 32 word" where
  "le_word bs = foldr (\<lambda>b w. ucast b + 256 * w) bs 0"

text \<open>
  Padding: a single 1 bit, zeros up to 56 mod 64 bytes, then the message length in bits
  as a 64-bit little-endian number.
\<close>

definition md5_pad :: "byte list \<Rightarrow> byte list" where
  "md5_pad m =
     m @ [0x80] @ replicate ((119 - length m mod 64) mod 64) 0
       @ le_bytes 8 (of_nat (8 * length m) :: 64 word)"

type_synonym md5_state = "32 word \<times> 32 word \<times> 32 word \<times> 32 word"

definition md5_round :: "32 word list \<Rightarrow> nat \<Rightarrow> md5_state \<Rightarrow> md5_state" where
  "md5_round M i st =
     (case st of (a, b, c, d) \<Rightarrow>
        let (f, g) =
              (if i < 16 then ((b AND c) OR (NOT b AND d), i)
               else if i < 32 then ((d AND b) OR (NOT d AND c), (5 * i + 1) mod 16)
               else if i < 48 then (b XOR c XOR d, (3 * i + 5) mod 16)
               else (c XOR (b OR NOT d), (7 * i) mod 16));
            F = f + a + md5_K ! i + M ! g
        in (d, b + word_rotl (md5_s ! i) F, b, c))"

definition md5_block :: "md5_state \<Rightarrow> byte list \<Rightarrow> md5_state" where
  "md5_block st blk =
     (let M = map (\<lambda>j. le_word (take 4 (drop (4 * j) blk))) [0..<16]
      in case (st, fold (md5_round M) [0..<64] st) of
           ((a0, b0, c0, d0), (a, b, c, d)) \<Rightarrow> (a0 + a, b0 + b, c0 + c, d0 + d))"

definition md5_init :: md5_state where
  "md5_init = (0x67452301, 0xefcdab89, 0x98badcfe, 0x10325476)"

definition md5_final :: "md5_state \<Rightarrow> byte list" where
  "md5_final st = (case st of (a, b, c, d) \<Rightarrow> concat (map (le_bytes 4) [a, b, c, d]))"

definition md5_digest :: "byte list \<Rightarrow> byte list" where
  "md5_digest m =
     (let p = md5_pad m
      in md5_final
           (fold (\<lambda>k st. md5_block st (take 64 (drop (64 * k) p))) [0..<length p div 64]
              md5_init))"

definition bytes_of :: "string \<Rightarrow> byte list" where
  "bytes_of s = map (\<lambda>c. of_nat (of_char c)) s"

text \<open>\<open>md5 s\<close> is the digest of an MD5 object that was fed the bytes \<open>s\<close>.\<close>

definition md5 :: "string \<Rightarrow> byte list" where
  "md5 s = md5_digest (bytes_of s)"

definition hex_digit :: "nat \<Rightarrow> char" where
  "hex_digit n = ''0123456789abcdef'' ! n"

definition hexdigest :: "byte list \<Rightarrow> string" where
  "hexdigest bs = concat (map (\<lambda>b. [hex_digit (unat b div 16), hex_digit (unat b mod 16)]) bs)"

subsection \<open>Paths (posixpath)\<close>

definition join :: "string \<Rightarrow> string \<Rightarrow> string" where
  "join a b =
     (if b \<noteq> [] \<and> hd b = CHR ''/'' then b
      else if a = [] \<or> last a = CHR ''/'' then a @ b
      else a @ ''/'' @ b)"

text \<open>
  Paths are compared literally. \<open>ancestors p\<close> lists the proper directory prefixes of \<open>p\<close>
  (what stands before a slash that ends a component), outermost first; \<open>at_or_under p q\<close> says that \<open>q\<close> is \<open>p\<close> or lies in the tree below \<open>p\<close>.
\<close>

fun ancestors_from :: "string \<Rightarrow> string \<Rightarrow> string list" where
  "ancestors_from pre [] = []"
| "ancestors_from pre (c # cs) =
     (if c = CHR ''/'' \<and> pre \<noteq> [] \<and> last pre \<noteq> CHR ''/'' then [pre] else [])
     @ ancestors_from (pre @ [c]) cs"

definition ancestors :: "string \<Rightarrow> string list" where
  "ancestors p = ancestors_from [] p"

definition at_or_under :: "string \<Rightarrow> string \<Rightarrow> bool" where
  "at_or_under p q = (q = p \<or> take (Suc (length p)) q = p @ ''/'')"

subsection \<open>The file system, the shell and the trace of effects\<close>

datatype node = Dir | File string

type_synonym nodes = "string \<Rightarrow> node option"

datatype os_error =
    FileExistsError | FileNotFoundError | NotADirectoryError | IsADirectoryError
  | PermissionError | SameFileError

datatype error =
    OSError os_error
  | CalledProcessError string
  | WorkflowError string
  | CreateSpackEnvironmentException string
  | SourceUnavailable
  | BrokenEnvironment string

datatype event =
    TmpFile string
  | Makedirs string
  | Touch string
  | CopyFile string string
  | ShellExec string nat string
  | Rmtree string
  | Remove string

text \<open>
  The state: the file system seen by \<open>os.path.exists\<close> and the list of effects performed so
  far, oldest first (every successful file system operation and every command handed to the
  shell, with its exit status and captured output).
\<close>

record world =
  nodes :: nodes
  trace :: "event list"

datatype source_file =
    LocalSourceFile string
  | LocalGitFile string string string
  | OtherSourceFile string

text \<open>
  What the module takes from its surroundings:
  \<^item> \<open>realpath\<close>: \<open>os.path.realpath\<close>;
  \<^item> \<open>read_source\<close>: the bytes the source cache returns for a source file, \<open>None\<close> when it
    cannot be read;
  \<^item> \<open>tempdir\<close>, \<open>tmp_random\<close>: the directory \<open>tempfile\<close> uses and the random name
    infixes it draws, in order;
  \<^item> \<open>sh\<close>: what the shell does with a command line: exit status, combined standard
    output and error, and the file system it leaves;
  \<^item> \<open>undeletable\<close>: the paths whose removal the operating system refuses;
  \<^item> \<open>ON_WINDOWS\<close>, \<open>get_executable\<close>: \<open>snakemake.common.ON_WINDOWS\<close> and
    \<open>shell.get_executable()\<close>.
\<close>

record os_env =
  realpath :: "string \<Rightarrow> string"
  read_source :: "source_file \<Rightarrow> string option"
  tempdir :: string
  tmp_random :: "string list"
  sh :: "string \<Rightarrow> nodes \<Rightarrow> (nat \<times> string) \<times> nodes"
  undeletable :: "string list"
  ON_WINDOWS :: bool
  get_executable :: "string option"

type_synonym 'a action = "world \<Rightarrow> (error + 'a) \<times> world"

text \<open>Sequencing: an exception of the first action skips the rest and keeps the state.\<close>

definition then_do :: "'a action \<Rightarrow> ('a \<Rightarrow> 'b action) \<Rightarrow> 'b action" where
  "then_do m f w = (case m w of (Inl e, w') \<Rightarrow> (Inl e, w') | (Inr x, w') \<Rightarrow> f x w')"

definition os_path_exists :: "world \<Rightarrow> string \<Rightarrow> bool" where
  "os_path_exists w p = (nodes w p \<noteq> None)"

definition all_dirs :: "nodes \<Rightarrow> string list \<Rightarrow> bool" where
  "all_dirs n ps = list_all (\<lambda>q. n q = Some Dir) ps"

text \<open>
  \<open>tempfile.NamedTemporaryFile(delete=False, suffix=...)\<close>: the first candidate name that
  does not exist yet is created as an empty file in the temporary directory.
\<close>

definition NamedTemporaryFile :: "os_env \<Rightarrow> string \<Rightarrow> string action" where
  "NamedTemporaryFile os suffix w =
     (case find (\<lambda>t. nodes w t = None)
             (map (\<lambda>r. join (tempdir os) (''tmp'' @ r @ suffix)) (tmp_random os)) of
        None \<Rightarrow> (Inl (OSError FileExistsError), w)
      | Some t \<Rightarrow>
          if all_dirs (nodes w) (ancestors t)
          then (Inr t, w\<lparr>nodes := (nodes w)(t \<mapsto> File []), trace := trace w @ [TmpFile t]\<rparr>)
          else (Inl (OSError FileNotFoundError), w))"

text \<open>Writing through the open handle of the temporary file and closing it.\<close>

definition tmp_write :: "string \<Rightarrow> string \<Rightarrow> unit action" where
  "tmp_write t c w = (Inr (), w\<lparr>nodes := (nodes w)(t \<mapsto> File c)\<rparr>)"

text \<open>
  \<open>os.makedirs(p, exist_ok=True)\<close>: creates the missing directories from the outermost one
  on; it fails on a component that is a file, keeping the directories made before.
\<close>

fun mkdir_each :: "string list \<Rightarrow> nodes \<Rightarrow> os_error option \<times> nodes" where
  "mkdir_each [] n = (None, n)"
| "mkdir_each (q # qs) n =
     (case n q of
        Some (File c) \<Rightarrow> (Some (if qs = [] then FileExistsError else NotADirectoryError), n)
      | Some Dir \<Rightarrow> mkdir_each qs n
      | None \<Rightarrow> mkdir_each qs (n(q \<mapsto> Dir)))"

definition os_makedirs :: "string \<Rightarrow> unit action" where
  "os_makedirs p w =
     (case mkdir_each (ancestors p @ [p]) (nodes w) of
        (Some e, n) \<Rightarrow> (Inl (OSError e), w\<lparr>nodes := n\<rparr>)
      | (None, n) \<Rightarrow> (Inr (), w\<lparr>nodes := n, trace := trace w @ [Makedirs p]\<rparr>))"

text \<open>\<open>Path(p).touch()\<close>: creates an empty file unless the path exists already.\<close>

definition Path_touch :: "string \<Rightarrow> unit action" where
  "Path_touch p w =
     (if all_dirs (nodes w) (ancestors p)
      then (Inr (),
            w\<lparr>nodes := (case nodes w p of None \<Rightarrow> (nodes w)(p \<mapsto> File []) | Some x \<Rightarrow> nodes w),
              trace := trace w @ [Touch p]\<rparr>)
      else (Inl (OSError FileNotFoundError), w))"

definition shutil_copyfile :: "string \<Rightarrow> string \<Rightarrow> unit action" where
  "shutil_copyfile src dst w =
     (if src = dst then (Inl (OSError SameFileError), w)
      else case nodes w src of
        None \<Rightarrow> (Inl (OSError FileNotFoundError), w)
      | Some Dir \<Rightarrow> (Inl (OSError IsADirectoryError), w)
      | Some (File c) \<Rightarrow>
          if \<not> all_dirs (nodes w) (ancestors dst) then (Inl (OSError FileNotFoundError), w)
          else if nodes w dst = Some Dir then (Inl (OSError IsADirectoryError), w)
          else (Inr (), w\<lparr>nodes := (nodes w)(dst \<mapsto> File c),
                           trace := trace w @ [CopyFile src dst]\<rparr>))"

text \<open>
  \<open>shell.check_output(cmd, stderr=subprocess.STDOUT, ...)\<close>: runs the command and returns
  its output; a non-zero exit status raises \<open>CalledProcessError\<close>, which carries the
  output.
\<close>

definition shell_check_output :: "os_env \<Rightarrow> string \<Rightarrow> string action" where
  "shell_check_output os cmd w =
     (case sh os cmd (nodes w) of
        ((status, out), n) \<Rightarrow>
          let w' = w\<lparr>nodes := n, trace := trace w @ [ShellExec cmd status out]\<rparr>
          in if status = 0 then (Inr out, w') else (Inl (CalledProcessError out), w'))"

text \<open>
  \<open>shutil.rmtree(p, ignore_errors=True)\<close>: removes the directory \<open>p\<close> with everything
  below it. An entry that the operating system refuses to remove stays, and so do the
  directories on the way to it; no error is reported. A path that is not a directory is left
  alone.
\<close>

definition blocked :: "os_env \<Rightarrow> nodes \<Rightarrow> string \<Rightarrow> bool" where
  "blocked os n q = list_ex (\<lambda>s. n s \<noteq> None \<and> at_or_under q s) (undeletable os)"

definition shutil_rmtree :: "os_env \<Rightarrow> string \<Rightarrow> world \<Rightarrow> world" where
  "shutil_rmtree os p w =
     w\<lparr>nodes :=
          (if nodes w p = Some Dir
           then (\<lambda>q. if at_or_under p q \<and> \<not> blocked os (nodes w) q then None else nodes w q)
           else nodes w),
       trace := trace w @ [Rmtree p]\<rparr>"

definition os_remove :: "os_env \<Rightarrow> string \<Rightarrow> unit action" where
  "os_remove os p w =
     (case nodes w p of
        None \<Rightarrow> (Inl (OSError FileNotFoundError), w)
      | Some Dir \<Rightarrow> (Inl (OSError IsADirectoryError), w)
      | Some (File c) \<Rightarrow>
          if p \<in> set (undeletable os) then (Inl (OSError PermissionError), w)
          else (Inr (), w\<lparr>nodes := (nodes w)(p := None), trace := trace w @ [Remove p]\<rparr>))"

section \<open>snakemake/deployment/spack.py\<close>

datatype SpackCleanupMode = tarballs | cache

fun SpackCleanupMode_str :: "SpackCleanupMode \<Rightarrow> string" where
  "SpackCleanupMode_str tarballs = ''tarballs''"
| "SpackCleanupMode_str cache = ''cache''"

subsection \<open>class Env\<close>

record persistence =
  spack_env_path :: string
  spack_env_archive_path :: string

text \<open>
  The attributes of an \<open>Env\<close> object; \<open>priv_x\<close> stands for the Python attribute \<open>_x\<close>.
  The workflow is reduced to the two paths of its persistence object that the class reads.
\<close>

record env =
  "file" :: source_file
  workflow :: persistence
  priv_env_dir :: string
  priv_hash :: "string option"
  priv_content_hash :: "string option"
  priv_content :: "string option"
  priv_path :: "string option"
  priv_archive_file :: "string option"
  priv_cleanup :: "SpackCleanupMode option"

text \<open>
  \<open>Env.__init__\<close>. The argument \<open>env_file\<close> is the source file that \<open>infer_source_file\<close>
  returns; \<open>env_dir or workflow.persistence.spack_env_path\<close> takes the second operand when
  \<open>env_dir\<close> is \<open>None\<close> or empty.
\<close>

definition Env_init ::
  "source_file \<Rightarrow> persistence \<Rightarrow> string option \<Rightarrow> SpackCleanupMode option \<Rightarrow> env" where
  "Env_init env_file wflow env_dir cleanup =
     \<lparr>file = env_file,
      workflow = wflow,
      priv_env_dir = (case env_dir of None \<Rightarrow> spack_env_path wflow
                      | Some d \<Rightarrow> if d = [] then spack_env_path wflow else d),
      priv_hash = None,
      priv_content_hash = None,
      priv_content = None,
      priv_path = None,
      priv_archive_file = None,
      priv_cleanup = cleanup\<rparr>"

definition priv_env_archive_dir :: "env \<Rightarrow> string" where
  "priv_env_archive_dir self = spack_env_archive_path (workflow self)"

text \<open>
  Modelled from the spec: \<open>EnvBase.content\<close>, inherited from \<open>snakemake/deployment/base.py\<close>,
  which is not among the sources. The spec: it returns the specification's raw content,
  fetched once and cached, and fails with \<open>SourceUnavailable\<close> if the backing source cannot be
  read.
\<close>

definition content :: "os_env \<Rightarrow> env \<Rightarrow> error + string \<times> env" where
  "content os self =
     (case priv_content self of
        Some c \<Rightarrow> Inr (c, self)
      | None \<Rightarrow>
          (case read_source os (file self) of
             None \<Rightarrow> Inl SourceUnavailable
           | Some c \<Rightarrow> Inr (c, self\<lparr>priv_content := Some c\<rparr>)))"

text \<open>
  The property \<open>Env.hash\<close>. The two \<open>update\<close> calls feed the MD5 object the bytes of the
  canonical directory followed by the content.
\<close>

definition hash :: "os_env \<Rightarrow> env \<Rightarrow> error + string \<times> env" where
  "hash os self =
     (case priv_hash self of
        Some h \<Rightarrow> Inr (h, self)
      | None \<Rightarrow>
          let env_dir = realpath os (priv_env_dir self)
          in case content os self of
               Inl e \<Rightarrow> Inl e
             | Inr (c, self1) \<Rightarrow>
                 let h = hexdigest (md5 (encode env_dir @ c))
                 in Inr (h, self1\<lparr>priv_hash := Some h\<rparr>))"

text \<open>
  The property \<open>Env.path\<close>. \<open>self.hash\<close> is read twice, for the 8-character prefix and for
  the full hash.
\<close>

definition path :: "os_env \<Rightarrow> env \<Rightarrow> world \<Rightarrow> error + string \<times> env" where
  "path os self w =
     (let env_dir = priv_env_dir self;
          get_path = (\<lambda>h. join env_dir h)
      in case hash os self of
           Inl e \<Rightarrow> Inl e
         | Inr (h0, self1) \<Rightarrow>
             (case hash os self1 of
                Inl e \<Rightarrow> Inl e
              | Inr (h1, self2) \<Rightarrow>
                  let hash_candidates = [take 8 h0, h1];
                      exists = map (\<lambda>h. os_path_exists w (get_path h)) hash_candidates
                  in if exists ! 1 \<or> \<not> exists ! 0
                     then Inr (get_path (hash_candidates ! 1), self2)
                     else Inr (get_path (hash_candidates ! 0), self2)))"

definition create_archive :: "env \<Rightarrow> unit action" where
  "create_archive self w = (Inl (WorkflowError ''spack does not support environment archive.''), w)"

text \<open>
  Modelled from the spec: \<open>EnvBase.check_broken_environment\<close>, inherited from
  \<open>snakemake/deployment/base.py\<close>, which is not among the sources. The spec: a directory is
  broken iff a start sentinel exists without a matching done sentinel, and the orchestrator
  fails fast with \<open>BrokenEnvironment\<close> on it. The repair that a caller may opt into is an
  external policy and is left out.
\<close>

definition broken :: "world \<Rightarrow> string \<Rightarrow> bool" where
  "broken w env_path =
     (os_path_exists w (join env_path ''env_setup_start'')
      \<and> \<not> os_path_exists w (join env_path ''env_setup_done''))"

definition check_broken_environment :: "string \<Rightarrow> bool \<Rightarrow> unit action" where
  "check_broken_environment env_path dryrun w =
     (if broken w env_path then (Inl (BrokenEnvironment env_path), w) else (Inr (), w))"

fun is_LocalSourceFile :: "source_file \<Rightarrow> bool" where
  "is_LocalSourceFile (LocalSourceFile p) = True"
| "is_LocalSourceFile f = False"

fun is_LocalGitFile :: "source_file \<Rightarrow> bool" where
  "is_LocalGitFile (LocalGitFile r p v) = True"
| "is_LocalGitFile f = False"

text \<open>\<open>get_path_or_uri\<close> of a local source file is its path; \<open>create\<close> calls it on no other.\<close>

fun get_path_or_uri :: "source_file \<Rightarrow> string" where
  "get_path_or_uri (LocalSourceFile p) = p"
| "get_path_or_uri (LocalGitFile r p v) = p"
| "get_path_or_uri (OtherSourceFile u) = u"

text \<open>
  \<open>Env.create\<close>, lines 113 to 124: the specification file handed to spack. A source that is
  not a plain local file is written to a temporary file. The result is the pair
  \<open>(env_file, tmp_file)\<close>.
\<close>

definition create_env_file ::
  "os_env \<Rightarrow> env \<Rightarrow> world \<Rightarrow> (error + string \<times> string option) \<times> env \<times> world" where
  "create_env_file os self w =
     (if \<not> is_LocalSourceFile (file self) \<or> is_LocalGitFile (file self)
      then case NamedTemporaryFile os ''.yaml'' w of
             (Inl e, w1) \<Rightarrow> (Inl e, self, w1)
           | (Inr tmp, w1) \<Rightarrow>
               (case content os self of
                  Inl e \<Rightarrow> (Inl e, self, w1)
                | Inr (c, self1) \<Rightarrow>
                    (Inr (tmp, Some tmp), self1, snd (tmp_write tmp c w1)))
      else (Inr (get_path_or_uri (file self), None), self, w))"

text \<open>The \<open>for cmd in [create, activate]\<close> loop; \<open>out\<close> is the output of the last command.\<close>

fun for_cmd :: "os_env \<Rightarrow> string list \<Rightarrow> string \<Rightarrow> string action" where
  "for_cmd os [] out w = (Inr out, w)"
| "for_cmd os (cmd # cmds) out w =
     (case shell_check_output os cmd w of
        (Inl e, w') \<Rightarrow> (Inl e, w')
      | (Inr out', w') \<Rightarrow> for_cmd os cmds out' w')"

definition create_cmd :: "string \<Rightarrow> string \<Rightarrow> string" where
  "create_cmd env_path target_env_file =
     ''spack env create --dir '' @ [CHR 0x27] @ env_path @ [CHR 0x27] @ '' '' @ target_env_file"

definition activate_cmd :: "string \<Rightarrow> string" where
  "activate_cmd env_path =
     ''eval `spack env activate --sh '' @ env_path @ ''`; '' @ ''spack install''"

text \<open>\<open>Env.create\<close>, lines 146 to 183: the body of the \<open>try\<close> block.\<close>

definition provision_try :: "os_env \<Rightarrow> string \<Rightarrow> string \<Rightarrow> unit action" where
  "provision_try os env_file env_path =
     then_do (os_makedirs env_path) (\<lambda>u.
     then_do (Path_touch (join env_path ''env_setup_start'')) (\<lambda>u.
     let target_env_file = join env_path ''spack.yaml'' in
     then_do (shutil_copyfile env_file target_env_file) (\<lambda>u.
     let create = create_cmd env_path target_env_file;
         activate = activate_cmd env_path in
     then_do (for_cmd os [create, activate] []) (\<lambda>out.
     Path_touch (join env_path ''env_setup_done'')))))"

definition failure_message :: "string \<Rightarrow> string \<Rightarrow> string" where
  "failure_message env_file output =
     ''Could not create spack environment from '' @ env_file @ '':'' @ [CHR 0x0A] @ output"

text \<open>
  \<open>Env.create\<close>, lines 145 to 190: the \<open>try\<close> block with its handler. Only
  \<open>CalledProcessError\<close> is caught; any other exception leaves the block as it is.
\<close>

definition provision :: "os_env \<Rightarrow> string \<Rightarrow> string \<Rightarrow> unit action" where
  "provision os env_file env_path w =
     (case provision_try os env_file env_path w of
        (Inl (CalledProcessError output), w') \<Rightarrow>
          (Inl (CreateSpackEnvironmentException (failure_message env_file output)),
           shutil_rmtree os env_path w')
      | (r, w') \<Rightarrow> (r, w'))"

text \<open>\<open>Env.create\<close>, lines 192 to 194.\<close>

definition remove_tmp_file :: "os_env \<Rightarrow> string option \<Rightarrow> unit action" where
  "remove_tmp_file os tmp_file w =
     (case tmp_file of None \<Rightarrow> (Inr (), w) | Some t \<Rightarrow> os_remove os t w)"

text \<open>
  \<open>Env.create\<close>. The result carries the object (its caches may have been filled) and the
  world, also when an exception leaves the method. Log messages are not modelled.
\<close>

definition create ::
  "os_env \<Rightarrow> env \<Rightarrow> bool \<Rightarrow> world \<Rightarrow> (error + string) \<times> env \<times> world" where
  "create os self dryrun w =
     (case create_env_file os self w of
        (Inl e, self1, w1) \<Rightarrow> (Inl e, self1, w1)
      | (Inr (env_file, tmp_file), self1, w1) \<Rightarrow>
          (case path os self1 w1 of
             Inl e \<Rightarrow> (Inl e, self1, w1)
           | Inr (env_path, self2) \<Rightarrow>
               (case check_broken_environment env_path dryrun w1 of
                  (Inl e, w2) \<Rightarrow> (Inl e, self2, w2)
                | (Inr u, w2) \<Rightarrow>
                    if \<not> os_path_exists w2 env_path
                    then if dryrun then (Inr env_path, self2, w2)
                         else (case provision os env_file env_path w2 of
                                 (Inl e, w3) \<Rightarrow> (Inl e, self2, w3)
                               | (Inr u, w3) \<Rightarrow>
                                   (case remove_tmp_file os tmp_file w3 of
                                      (Inl e, w4) \<Rightarrow> (Inl e, self2, w4)
                                    | (Inr u, w4) \<Rightarrow> (Inr env_path, self2, w4)))
                    else (case remove_tmp_file os tmp_file w2 of
                            (Inl e, w4) \<Rightarrow> (Inl e, self2, w4)
                          | (Inr u, w4) \<Rightarrow> (Inr env_path, self2, w4)))))"

text \<open>
  \<open>Env.__eq__\<close>. The other operand is any Python object; source files are compared by
  their identity as declared sources.
\<close>

datatype pyobject = EnvObject env | OtherObject

fun Env_eq :: "env \<Rightarrow> pyobject \<Rightarrow> bool" where
  "Env_eq self (EnvObject other) = (file self = file other)"
| "Env_eq self OtherObject = False"

subsection \<open>class Spack\<close>

text \<open>Python renders \<open>None\<close> as the text None in a format string.\<close>

definition format_opt :: "string option \<Rightarrow> string" where
  "format_opt x = (case x of None \<Rightarrow> ''None'' | Some s \<Rightarrow> s)"

definition truthy :: "string option \<Rightarrow> bool" where
  "truthy x = (case x of None \<Rightarrow> False | Some s \<Rightarrow> s \<noteq> [])"

definition Spack_check :: "os_env \<Rightarrow> unit action" where
  "Spack_check os w =
     (let locate_cmd =
            (if \<not> ON_WINDOWS os \<or> truthy (get_executable os) then ''type spack''
             else ''where spack'')
      in case shell_check_output os locate_cmd w of
           (Inl (CalledProcessError output), w') \<Rightarrow>
             (Inl (CreateSpackEnvironmentException
                     (''The '' @ [CHR 0x27] @ ''spack'' @ [CHR 0x27] @ '' command is not ''
                      @ ''available in the ''
                      @ ''shell '' @ format_opt (get_executable os) @ '' that will be ''
                      @ ''used by Snakemake. You have ''
                      @ ''to ensure that it is in your ''
                      @ ''PATH.'')),
              w')
         | (Inl e, w') \<Rightarrow> (Inl e, w')
         | (Inr out, w') \<Rightarrow> (Inr (), w'))"

definition Spack_init :: "os_env \<Rightarrow> unit action" where
  "Spack_init os w = Spack_check os w"

definition shellcmd :: "string \<Rightarrow> string \<Rightarrow> string" where
  "shellcmd env_path cmd =
     (let activate = ''eval `spack env activate --sh '' @ env_path @ ''`''
      in activate @ ''; '' @ cmd)"

section \<open>Auxiliary notions for the statements\<close>

text \<open>Strings of lowercase hexadecimal digits.\<close>

definition hexstr :: "string \<Rightarrow> bool" where
  "hexstr h = list_all (\<lambda>c. c \<in> set ''0123456789abcdef'') h"

text \<open>The effects with which the provisioning sequence starts, up to the copy of the specification.\<close>

definition setup_events :: "string \<Rightarrow> string \<Rightarrow> event list" where
  "setup_events env_file env_path =
     [Makedirs env_path, Touch (join env_path ''env_setup_start''),
      CopyFile env_file (join env_path ''spack.yaml'')]"

definition identityHash :: "string \<Rightarrow> string \<Rightarrow> string" where
  "identityHash canonicalRoot contentBytes = hexdigest (md5 (canonicalRoot @ contentBytes))"

definition resolvePath :: "world \<Rightarrow> string \<Rightarrow> string \<Rightarrow> string" where
  "resolvePath w targetRootDir h =
     (let shortPath = join targetRootDir (take 8 h);
          fullPath = join targetRootDir h
      in if os_path_exists w fullPath \<or> \<not> os_path_exists w shortPath then fullPath
         else shortPath)"

definition coherent :: "os_env \<Rightarrow> env \<Rightarrow> bool" where
  "coherent os self =
     ((case priv_content self of
         None \<Rightarrow> True
       | Some c \<Rightarrow> read_source os (file self) = Some c)
      \<and> (case priv_hash self of
            None \<Rightarrow> True
          | Some h \<Rightarrow>
              (case read_source os (file self) of
                 None \<Rightarrow> False
               | Some c \<Rightarrow> h = identityHash (realpath os (priv_env_dir self)) c)))"

definition spec_yaml :: string where
  "spec_yaml = ''spack:'' @ [CHR 0x0A] @ ''  specs: [zlib]'' @ [CHR 0x0A]"

definition ex_sources :: "source_file \<Rightarrow> string option" where
  "ex_sources f =
     (if f = LocalSourceFile ''/work/spack.yaml'' then Some spec_yaml
      else if f = LocalSourceFile ''/work/copy.yaml'' then Some spec_yaml
      else if f = LocalSourceFile ''/work/tail.yaml'' then Some (tl spec_yaml)
      else if f = OtherSourceFile ''https://example.org/spack.yaml'' then Some spec_yaml
      else None)"

definition ex_sh :: "string \<Rightarrow> nodes \<Rightarrow> (nat \<times> string) \<times> nodes" where
  "ex_sh cmd n = ((0, ''==> done''), n)"

definition ex_os :: os_env where
  "ex_os =
     \<lparr>realpath = (\<lambda>p. p), read_source = ex_sources, tempdir = ''/tmp'',
      tmp_random = [''8k2_xq0a''], sh = ex_sh, undeletable = [],
      ON_WINDOWS = False, get_executable = Some ''/bin/bash''\<rparr>"

definition ex_persistence :: persistence where
  "ex_persistence = \<lparr>spack_env_path = ''/srv/env'', spack_env_archive_path = ''/srv/archive''\<rparr>"

definition ex_env :: env where
  "ex_env = Env_init (LocalSourceFile ''/work/spack.yaml'') ex_persistence None None"

definition ex_env_copy :: env where
  "ex_env_copy =
     Env_init (LocalSourceFile ''/work/copy.yaml'') ex_persistence (Some ''/srv/env'') (Some tarballs)"

definition ex_env_shifted :: env where
  "ex_env_shifted =
     Env_init (LocalSourceFile ''/work/tail.yaml'') ex_persistence (Some ''/srv/envs'') None"

definition ex_hash :: string where
  "ex_hash = identityHash ''/srv/env'' spec_yaml"

definition ex_nodes :: nodes where
  "ex_nodes =
     [''/work/spack.yaml'' \<mapsto> File spec_yaml, ''/work'' \<mapsto> Dir, ''/tmp'' \<mapsto> Dir,
      ''/srv'' \<mapsto> Dir]"

definition ex_world :: world where
  "ex_world = \<lparr>nodes = ex_nodes, trace = []\<rparr>"

definition ex_world_short :: world where
  "ex_world_short =
     \<lparr>nodes = ex_nodes(''/srv/env'' \<mapsto> Dir, ''/srv/env/'' @ take 8 ex_hash \<mapsto> Dir), trace = []\<rparr>"

definition ex_sh_fail :: "string \<Rightarrow> nodes \<Rightarrow> (nat \<times> string) \<times> nodes" where
  "ex_sh_fail cmd n = ((127, ''spack: command not found''), n)"

definition ex_os_fail :: os_env where
  "ex_os_fail = ex_os\<lparr>sh := ex_sh_fail\<rparr>"

definition ex_path :: string where
  "ex_path = ''/srv/env/'' @ ex_hash"

definition ex_sh_busy :: "string \<Rightarrow> nodes \<Rightarrow> (nat \<times> string) \<times> nodes" where
  "ex_sh_busy cmd n = ((1, ''==> Error: install failed''), n(ex_path @ ''/.nfs0001'' \<mapsto> File []))"

definition ex_os_busy :: os_env where
  "ex_os_busy = ex_os\<lparr>sh := ex_sh_busy, undeletable := [ex_path @ ''/.nfs0001'']\<rparr>"

definition ex_tmp :: string where
  "ex_tmp = ''/tmp/tmp8k2_xq0a.yaml''"

definition ex_env_remote :: env where
  "ex_env_remote =
     Env_init (OtherSourceFile ''https://example.org/spack.yaml'') ex_persistence None None"

definition ex_setup_nodes :: "nodes \<Rightarrow> nodes" where
  "ex_setup_nodes n =
     n(''/srv/env'' \<mapsto> Dir, ex_path \<mapsto> Dir, ex_path @ ''/env_setup_start'' \<mapsto> File [],
       ex_path @ ''/spack.yaml'' \<mapsto> File spec_yaml)"

definition ex_short :: string where
  "ex_short = ''/srv/env/'' @ take 8 ex_hash"

definition ex_world_tmp :: world where
  "ex_world_tmp = \<lparr>nodes = ex_nodes(ex_tmp \<mapsto> File spec_yaml), trace = [TmpFile ex_tmp]\<rparr>"

definition events_since :: "world \<Rightarrow> world \<Rightarrow> event list" where
  "events_since w w' = drop (length (trace w)) (trace w')"

section \<open>Properties of the library functions\<close>

lemma hex_digit_in: "n < 16 \<Longrightarrow> hex_digit n \<in> set ''0123456789abcdef''"
  unfolding hex_digit_def by (rule nth_mem) simp

lemma byte_div_16: "unat (b :: byte) div 16 < 16"
proof -
  have "unat b < 2 ^ LENGTH(8)" by (rule unsigned_less)
  then show ?thesis by simp
qed

lemma hexstr_hexdigest: "hexstr (hexdigest bs)"
proof -
  have "unat b div 16 < 16" for b :: byte
    by (rule byte_div_16)
  then show ?thesis
    unfolding hexstr_def hexdigest_def
    by (induction bs) (simp_all add: hex_digit_in del: set_simps)
qed

lemma length_hexdigest: "length (hexdigest bs) = 2 * length bs"
  unfolding hexdigest_def by (induction bs) simp_all

lemma hex_digit_inj: "m < 16 \<Longrightarrow> n < 16 \<Longrightarrow> hex_digit m = hex_digit n \<Longrightarrow> m = n"
proof -
  have d: "distinct ''0123456789abcdef''" by simp
  show "m < 16 \<Longrightarrow> n < 16 \<Longrightarrow> hex_digit m = hex_digit n \<Longrightarrow> m = n"
    unfolding hex_digit_def using nth_eq_iff_index_eq [OF d, of m n] by simp
qed

lemma hexdigest_inj: "hexdigest a = hexdigest b \<Longrightarrow> a = b"
proof (induction a arbitrary: b)
  case Nil
  then show ?case by (cases b) (simp_all add: hexdigest_def)
next
  case (Cons x a)
  then obtain y b' where b: "b = y # b'" by (cases b) (simp_all add: hexdigest_def)
  have lt: "unat z div 16 < 16" for z :: byte
    by (rule byte_div_16)
  from Cons.prems b have hi: "hex_digit (unat x div 16) = hex_digit (unat y div 16)"
    and lo: "hex_digit (unat x mod 16) = hex_digit (unat y mod 16)"
    and rest: "hexdigest a = hexdigest b'"
    by (simp_all add: hexdigest_def)
  from hi have "unat x div 16 = unat y div 16" by (rule hex_digit_inj [OF lt lt])
  moreover from lo have "unat x mod 16 = unat y mod 16" by (rule hex_digit_inj [rotated 2]) simp_all
  ultimately have "unat x = unat y" by (metis div_mult_mod_eq)
  then have "x = y" by (simp add: word_unat_eq_iff)
  with Cons.IH [OF rest] b show ?case by simp
qed

lemma length_le_bytes: "length (le_bytes n w) = n"
  by (simp add: le_bytes_def)

lemma length_md5: "length (md5 s) = 16"
  unfolding md5_def md5_digest_def md5_final_def Let_def
  by (simp add: split_beta length_le_bytes)

lemma length_md5_hex: "length (hexdigest (md5 s)) = 32"
  by (simp add: length_hexdigest length_md5)

lemma hexstr_mem: "hexstr h \<Longrightarrow> c \<in> set h \<Longrightarrow> c \<in> set ''0123456789abcdef''"
  by (simp add: hexstr_def list_all_iff)

lemma hexstr_take: "hexstr h \<Longrightarrow> hexstr (take n h)"
  unfolding hexstr_def list_all_iff by (meson in_set_takeD)

lemma hexstr_hd: "hexstr h \<Longrightarrow> h \<noteq> [] \<Longrightarrow> hd h \<in> set ''0123456789abcdef''"
  using hexstr_mem [of h "hd h"] by simp

lemma hexstr_last: "hexstr h \<Longrightarrow> h \<noteq> [] \<Longrightarrow> last h \<in> set ''0123456789abcdef''"
  using hexstr_mem [of h "last h"] by simp

lemma join_hex:
  assumes "hexstr h" "h \<noteq> []"
  shows "join d h = (if d = [] \<or> last d = CHR ''/'' then d @ h else d @ ''/'' @ h)"
  using hexstr_hd [OF assms] assms(2) by (auto simp: join_def)

lemma last_join_hex:
  assumes "hexstr h" "h \<noteq> []"
  shows "join d h \<noteq> [] \<and> last (join d h) = last h"
  using assms by (simp add: join_hex)

lemma join_hex_inj:
  assumes "hexstr h1" "h1 \<noteq> []" "hexstr h2" "h2 \<noteq> []"
  shows "join d h1 = join d h2 \<longleftrightarrow> h1 = h2"
  using assms by (simp add: join_hex)

lemma join_plain:
  "b \<noteq> [] \<Longrightarrow> hd b \<noteq> CHR ''/'' \<Longrightarrow> p \<noteq> [] \<Longrightarrow> last p \<noteq> CHR ''/'' \<Longrightarrow> join p b = p @ ''/'' @ b"
  by (simp add: join_def)

lemma ancestors_from_append:
  "ancestors_from pre (xs @ ys) = ancestors_from pre xs @ ancestors_from (pre @ xs) ys"
  by (induction xs arbitrary: pre) simp_all

lemma ancestors_from_no_slash: "CHR ''/'' \<notin> set b \<Longrightarrow> ancestors_from pre b = []"
  by (induction b arbitrary: pre) auto

lemma ancestors_from_shorter:
  "q \<in> set (ancestors_from pre xs) \<Longrightarrow> length q < length pre + length xs"
  by (induction xs arbitrary: pre) (fastforce split: if_splits)+

lemma ancestors_child:
  "p \<noteq> [] \<Longrightarrow> last p \<noteq> CHR ''/'' \<Longrightarrow>
     ancestors (p @ CHR ''/'' # b) = ancestors p @ p # ancestors_from (p @ ''/'') b"
  by (simp add: ancestors_def ancestors_from_append)

lemma ancestors_mem:
  assumes "at_or_under p t" "t \<noteq> p" "p \<noteq> []" "last p \<noteq> CHR ''/''"
  shows "p \<in> set (ancestors t)"
proof -
  from assms(1,2) have tk: "take (Suc (length p)) t = p @ ''/''"
    by (simp add: at_or_under_def)
  then have t: "t = p @ ''/'' @ drop (Suc (length p)) t"
    by (metis append_take_drop_id append.assoc)
  have "p \<in> set (ancestors (p @ CHR ''/'' # drop (Suc (length p)) t))"
    by (simp add: ancestors_child [OF assms(3,4)])
  with t show ?thesis by simp
qed

lemma ancestors_proper: "q \<in> set (ancestors p) \<Longrightarrow> q \<noteq> p"
  using ancestors_from_shorter [of q "[]" p] by (auto simp: ancestors_def)

lemma at_or_under_child: "at_or_under p (p @ ''/'' @ b)"
  by (simp add: at_or_under_def)

lemma parent_in_ancestors:
  "p \<noteq> [] \<Longrightarrow> last p \<noteq> CHR ''/'' \<Longrightarrow> p \<in> set (ancestors (p @ ''/'' @ b))"
  using ancestors_mem [OF at_or_under_child, of p b] by simp

lemma NamedTemporaryFile_Inr:
  assumes "NamedTemporaryFile os sfx w = (Inr t, w1)"
  shows "nodes w t = None \<and> all_dirs (nodes w) (ancestors t)
    \<and> w1 = w\<lparr>nodes := (nodes w)(t \<mapsto> File []), trace := trace w @ [TmpFile t]\<rparr>
    \<and> (\<exists>r. t = join (tempdir os) (''tmp'' @ r @ sfx))"
  using assms unfolding NamedTemporaryFile_def
  by (auto split: option.splits if_splits simp: find_Some_iff)

lemma NamedTemporaryFile_Inl:
  "NamedTemporaryFile os sfx w = (Inl e, w1) \<Longrightarrow> w1 = w \<and> (\<exists>x. e = OSError x)"
  unfolding NamedTemporaryFile_def by (auto split: option.splits if_splits)

lemma mkdir_each_frame:
  "mkdir_each qs n = (r, n') \<Longrightarrow> n' q = n q \<or> (n q = None \<and> n' q = Some Dir)"
proof (induction qs arbitrary: n)
  case Nil
  then show ?case by simp
next
  case (Cons a qs)
  show ?case
  proof (cases "n a")
    case None
    with Cons.prems have "mkdir_each qs (n(a \<mapsto> Dir)) = (r, n')" by simp
    from Cons.IH [OF this] None show ?thesis by (auto split: if_splits)
  next
    case (Some x)
    then show ?thesis using Cons by (cases x) auto
  qed
qed

lemma mkdir_each_ok: "mkdir_each qs n = (None, n') \<Longrightarrow> q \<in> set qs \<Longrightarrow> n' q = Some Dir"
proof (induction qs arbitrary: n)
  case Nil
  then show ?case by simp
next
  case (Cons a qs)
  show ?case
  proof (cases "n a")
    case None
    with Cons.prems have rec: "mkdir_each qs (n(a \<mapsto> Dir)) = (None, n')" by simp
    show ?thesis
    proof (cases "q = a")
      case True
      with mkdir_each_frame [OF rec, of a] show ?thesis by simp
    next
      case False
      with Cons.prems have "q \<in> set qs" by simp
      from Cons.IH [OF rec this] show ?thesis .
    qed
  next
    case (Some x)
    show ?thesis
    proof (cases x)
      case Dir
      with Some Cons.prems have rec: "mkdir_each qs n = (None, n')" by simp
      show ?thesis
      proof (cases "q = a")
        case True
        with mkdir_each_frame [OF rec, of a] Some Dir show ?thesis by simp
      next
        case False
        with Cons.prems have "q \<in> set qs" by simp
        from Cons.IH [OF rec this] show ?thesis .
      qed
    next
      case (File c)
      with Some Cons.prems show ?thesis by simp
    qed
  qed
qed

lemma os_makedirs_frame:
  "os_makedirs p w = (r, w') \<Longrightarrow> nodes w' q = nodes w q \<or> (nodes w q = None \<and> nodes w' q = Some Dir)"
  unfolding os_makedirs_def
  by (auto split: prod.splits option.splits dest: mkdir_each_frame [where q = q])

lemma os_makedirs_cases:
  assumes "os_makedirs p w = (r, w')"
  shows "(r = Inr () \<and> trace w' = trace w @ [Makedirs p] \<and> nodes w' p = Some Dir
          \<and> all_dirs (nodes w') (ancestors p))
       \<or> (\<exists>e. r = Inl (OSError e) \<and> trace w' = trace w)"
proof (cases "mkdir_each (ancestors p @ [p]) (nodes w)")
  case (Pair e n)
  show ?thesis
  proof (cases e)
    case None
    with Pair assms have r: "r = Inr ()"
      and w': "w' = w\<lparr>nodes := n, trace := trace w @ [Makedirs p]\<rparr>"
      by (simp_all add: os_makedirs_def)
    have "n q = Some Dir" if "q \<in> set (ancestors p @ [p])" for q
      using mkdir_each_ok [OF Pair [unfolded None] that] .
    then show ?thesis using r w' by (simp add: all_dirs_def list_all_iff)
  next
    case (Some x)
    with Pair assms show ?thesis by (auto simp: os_makedirs_def)
  qed
qed

lemma Path_touch_frame:
  "Path_touch q w = (r, w') \<Longrightarrow>
     nodes w' x = nodes w x \<or> (x = q \<and> nodes w x = None \<and> nodes w' x = Some (File []))"
  unfolding Path_touch_def by (auto split: if_splits option.splits)

lemma Path_touch_cases:
  assumes "Path_touch q w = (r, w')"
  shows "(r = Inr () \<and> trace w' = trace w @ [Touch q] \<and> nodes w' q \<noteq> None
          \<and> all_dirs (nodes w') (ancestors q))
       \<or> (\<exists>e. r = Inl (OSError e) \<and> w' = w)"
  using assms unfolding Path_touch_def all_dirs_def list_all_iff
  by (auto split: if_splits option.splits dest: ancestors_proper)

lemma shutil_copyfile_frame:
  "shutil_copyfile f y w = (r, w') \<Longrightarrow> (x \<noteq> y \<or> f = y) \<Longrightarrow> nodes w' x = nodes w x"
  unfolding shutil_copyfile_def by (auto split: if_splits option.splits node.splits)

lemma shutil_copyfile_cases:
  assumes "shutil_copyfile f y w = (r, w')"
  shows "(r = Inr () \<and> trace w' = trace w @ [CopyFile f y])
       \<or> (\<exists>e. r = Inl (OSError e) \<and> w' = w)"
  using assms unfolding shutil_copyfile_def
  by (auto split: if_splits option.splits node.splits)

lemma shell_check_output_cases:
  assumes "shell_check_output os cmd w = (r, w')"
  shows "\<exists>st out. sh os cmd (nodes w) = ((st, out), nodes w')
           \<and> trace w' = trace w @ [ShellExec cmd st out]
           \<and> (if st = 0 then r = Inr out else r = Inl (CalledProcessError out))"
proof -
  obtain st out n where s: "sh os cmd (nodes w) = ((st, out), n)"
    by (metis prod.exhaust)
  have w': "w' = w\<lparr>nodes := n, trace := trace w @ [ShellExec cmd st out]\<rparr>"
    using assms s by (simp add: shell_check_output_def Let_def split: if_splits)
  have r: "if st = 0 then r = Inr out else r = Inl (CalledProcessError out)"
    using assms s by (simp add: shell_check_output_def Let_def split: if_splits)
  from s w' r show ?thesis by simp
qed

lemma for_cmd2_cases:
  assumes "for_cmd os [c1, c2] o0 w = (r, w')"
  shows "(\<exists>st out. st \<noteq> 0 \<and> r = Inl (CalledProcessError out)
            \<and> trace w' = trace w @ [ShellExec c1 st out])
       \<or> (\<exists>o1 st out. st \<noteq> 0 \<and> r = Inl (CalledProcessError out)
            \<and> trace w' = trace w @ [ShellExec c1 0 o1, ShellExec c2 st out])
       \<or> (\<exists>o1 o2. r = Inr o2
            \<and> trace w' = trace w @ [ShellExec c1 0 o1, ShellExec c2 0 o2])"
proof -
  obtain r1 w1 where s1: "shell_check_output os c1 w = (r1, w1)" by fastforce
  obtain r2 w2 where s2: "shell_check_output os c2 w1 = (r2, w2)" by fastforce
  from shell_check_output_cases [OF s1] shell_check_output_cases [OF s2] assms s1 s2
  show ?thesis by (auto split: if_splits)
qed

lemma then_do_elim:
  assumes "then_do m f w = (r, w')"
  obtains (raised) e where "m w = (Inl e, w')" "r = Inl e"
    | (returned) x w1 where "m w = (Inr x, w1)" "f x w1 = (r, w')"
  using assms unfolding then_do_def by (auto split: prod.splits sum.splits)

lemma provision_try_cases:
  assumes "provision_try os f p w = (r, w')"
  shows "(\<exists>e. r = Inl (OSError e)
            \<and> (trace w' = trace w \<or> trace w' = trace w @ [Makedirs p]
               \<or> trace w' = trace w @ [Makedirs p, Touch (join p ''env_setup_start'')]))
       \<or> (\<exists>st out. st \<noteq> 0 \<and> r = Inl (CalledProcessError out)
            \<and> trace w' = trace w @ setup_events f p
                 @ [ShellExec (create_cmd p (join p ''spack.yaml'')) st out])
       \<or> (\<exists>o1 st out. st \<noteq> 0 \<and> r = Inl (CalledProcessError out)
            \<and> trace w' = trace w @ setup_events f p
                 @ [ShellExec (create_cmd p (join p ''spack.yaml'')) 0 o1,
                    ShellExec (activate_cmd p) st out])
       \<or> (\<exists>e o1 o2. r = Inl (OSError e)
            \<and> trace w' = trace w @ setup_events f p
                 @ [ShellExec (create_cmd p (join p ''spack.yaml'')) 0 o1,
                    ShellExec (activate_cmd p) 0 o2])
       \<or> (\<exists>o1 o2. r = Inr ()
            \<and> trace w' = trace w @ setup_events f p
                 @ [ShellExec (create_cmd p (join p ''spack.yaml'')) 0 o1,
                    ShellExec (activate_cmd p) 0 o2,
                    Touch (join p ''env_setup_done'')]
            \<and> nodes w' (join p ''env_setup_done'') \<noteq> None
            \<and> all_dirs (nodes w') (ancestors (join p ''env_setup_done'')))"
  using assms unfolding provision_try_def Let_def
proof (cases rule: then_do_elim)
  case (raised e)
  with os_makedirs_cases [OF raised(1)] show ?thesis by auto
next
  case mk: (returned u1 w1)
  from os_makedirs_cases [OF mk(1)] have t1: "trace w1 = trace w @ [Makedirs p]" by auto
  from mk(2) show ?thesis
  proof (cases rule: then_do_elim)
    case (raised e)
    with Path_touch_cases [OF raised(1)] t1 show ?thesis by auto
  next
    case tc: (returned u2 w2)
    from Path_touch_cases [OF tc(1)] t1
    have t2: "trace w2 = trace w @ [Makedirs p, Touch (join p ''env_setup_start'')]" by auto
    from tc(2) show ?thesis
    proof (cases rule: then_do_elim)
      case (raised e)
      with shutil_copyfile_cases [OF raised(1)] t2 show ?thesis by auto
    next
      case cp: (returned u3 w3)
      from shutil_copyfile_cases [OF cp(1)] t2
      have t3: "trace w3 = trace w @ setup_events f p" by (auto simp: setup_events_def)
      from cp(2) show ?thesis
      proof (cases rule: then_do_elim)
        case (raised e)
        with for_cmd2_cases [OF raised(1)] t3 show ?thesis by auto
      next
        case fc: (returned out w4)
        from for_cmd2_cases [OF fc(1)] t3
        obtain o1 o2 where t4: "trace w4 = trace w @ setup_events f p
                 @ [ShellExec (create_cmd p (join p ''spack.yaml'')) 0 o1,
                    ShellExec (activate_cmd p) 0 o2]" by auto
        from Path_touch_cases [OF fc(2)] t4 show ?thesis by auto
      qed
    qed
  qed
qed

lemma coherent_Env_init: "coherent os (Env_init f wflow d cl)"
  by (simp add: coherent_def Env_init_def)

lemma content_coherent:
  assumes "coherent os e" "read_source os (file e) = Some c"
  shows "content os e = Inr (c, e\<lparr>priv_content := Some c\<rparr>)"
  using assms by (auto simp: coherent_def content_def split: option.splits)

lemma content_Inr:
  assumes "coherent os e" "content os e = Inr (c, e1)"
  shows "read_source os (file e) = Some c \<and> e1 = e\<lparr>priv_content := Some c\<rparr>"
  using assms by (auto simp: coherent_def content_def split: option.splits)

lemma hash_coherent:
  assumes "coherent os e" "read_source os (file e) = Some c"
  shows "\<exists>e1. hash os e = Inr (identityHash (realpath os (priv_env_dir e)) c, e1)
           \<and> coherent os e1 \<and> file e1 = file e \<and> priv_env_dir e1 = priv_env_dir e
           \<and> priv_path e1 = priv_path e
           \<and> priv_hash e1 = Some (identityHash (realpath os (priv_env_dir e)) c)"
proof (cases "priv_hash e")
  case None
  with assms content_coherent [OF assms] show ?thesis
    by (simp add: hash_def Let_def coherent_def identityHash_def encode_def)
next
  case (Some h)
  with assms show ?thesis by (simp add: hash_def coherent_def)
qed

lemma hash_Inr:
  assumes "coherent os e" "hash os e = Inr (h, e1)"
  shows "\<exists>c. read_source os (file e) = Some c"
proof (cases "priv_hash e")
  case None
  with assms(2) obtain c e0 where "content os e = Inr (c, e0)"
    by (auto simp: hash_def Let_def split: sum.splits)
  from content_Inr [OF assms(1) this] show ?thesis by blast
next
  case (Some h)
  with assms(1) show ?thesis by (auto simp: coherent_def split: option.splits)
qed

lemma hash_cached: "priv_hash e = Some h \<Longrightarrow> hash os e = Inr (h, e)"
  by (simp add: hash_def)

lemma path_coherent:
  assumes "coherent os e" "read_source os (file e) = Some c"
  shows "\<exists>e1. path os e w
             = Inr (resolvePath w (priv_env_dir e) (identityHash (realpath os (priv_env_dir e)) c), e1)
           \<and> coherent os e1 \<and> file e1 = file e \<and> priv_env_dir e1 = priv_env_dir e
           \<and> priv_path e1 = priv_path e
           \<and> priv_hash e1 = Some (identityHash (realpath os (priv_env_dir e)) c)"
proof -
  from hash_coherent [OF assms] obtain e1 where
    h: "hash os e = Inr (identityHash (realpath os (priv_env_dir e)) c, e1)"
    and e1: "coherent os e1" "file e1 = file e" "priv_env_dir e1 = priv_env_dir e"
      "priv_path e1 = priv_path e"
      "priv_hash e1 = Some (identityHash (realpath os (priv_env_dir e)) c)"
    by blast
  from hash_cached [OF e1(5)] h e1 show ?thesis
    by (simp add: path_def Let_def resolvePath_def)
qed

lemma path_Inr:
  assumes "coherent os e" "path os e w = Inr (p, e1)"
  shows "\<exists>c. read_source os (file e) = Some c"
proof -
  from assms(2) obtain h e0 where "hash os e = Inr (h, e0)"
    by (auto simp: path_def Let_def split: sum.splits)
  from hash_Inr [OF assms(1) this] show ?thesis .
qed

lemma hexstr_identityHash: "hexstr (identityHash r c)"
  by (simp add: identityHash_def hexstr_hexdigest)

lemma length_identityHash: "length (identityHash r c) = 32"
  by (simp add: identityHash_def length_md5_hex)

lemma identityHash_nonempty: "identityHash r c \<noteq> []" "take 8 (identityHash r c) \<noteq> []"
  using length_identityHash [of r c] by auto

lemma short_neq_full: "join d (take 8 (identityHash r c)) \<noteq> join d (identityHash r c)"
proof -
  have "take 8 (identityHash r c) \<noteq> identityHash r c"
  proof
    assume "take 8 (identityHash r c) = identityHash r c"
    then have "length (take 8 (identityHash r c)) = length (identityHash r c)" by simp
    then show False by (simp add: length_identityHash)
  qed
  then show ?thesis
    by (simp add: join_hex_inj hexstr_identityHash hexstr_take identityHash_nonempty)
qed

lemma take8_identityHash: "take 8 (identityHash r c) \<noteq> identityHash r c"
proof
  assume "take 8 (identityHash r c) = identityHash r c"
  then have "length (take 8 (identityHash r c)) = length (identityHash r c)" by simp
  then show False by (simp add: length_identityHash)
qed

lemma ex_hash_facts:
  "hexstr ex_hash" "ex_hash \<noteq> []" "hexstr (take 8 ex_hash)" "take 8 ex_hash \<noteq> []"
  "take 8 ex_hash \<noteq> ex_hash" "ex_hash \<noteq> take 8 ex_hash" "length ex_hash = 32"
  "CHR ''/'' \<notin> set ex_hash"
proof -
  show "hexstr ex_hash" "ex_hash \<noteq> []" "hexstr (take 8 ex_hash)" "take 8 ex_hash \<noteq> []"
    "take 8 ex_hash \<noteq> ex_hash" "length ex_hash = 32"
    unfolding ex_hash_def
    by (rule hexstr_identityHash identityHash_nonempty take8_identityHash
        hexstr_take [OF hexstr_identityHash] length_identityHash)+
  from \<open>take 8 ex_hash \<noteq> ex_hash\<close> show "ex_hash \<noteq> take 8 ex_hash" by (rule not_sym)
  show "CHR ''/'' \<notin> set ex_hash"
    using hexstr_mem [OF \<open>hexstr ex_hash\<close>, of "CHR ''/''"] by auto
qed

lemma ex_path_facts: "ex_path \<noteq> []" "last ex_path \<noteq> CHR ''/''"
  using ex_hash_facts(2) hexstr_last [OF ex_hash_facts(1,2)] by (auto simp: ex_path_def)

lemma ex_join:
  "join ''/srv/env'' ex_hash = ex_path"
  "join ''/srv/env'' (take 8 ex_hash) = ''/srv/env/'' @ take 8 ex_hash"
  "join ex_path ''env_setup_start'' = ex_path @ ''/env_setup_start''"
  "join ex_path ''env_setup_done'' = ex_path @ ''/env_setup_done''"
  "join ex_path ''spack.yaml'' = ex_path @ ''/spack.yaml''"
proof -
  show "join ''/srv/env'' ex_hash = ex_path"
    "join ''/srv/env'' (take 8 ex_hash) = ''/srv/env/'' @ take 8 ex_hash"
    using ex_hash_facts by (simp_all add: join_hex ex_path_def)
  show "join ex_path ''env_setup_start'' = ex_path @ ''/env_setup_start''"
    "join ex_path ''env_setup_done'' = ex_path @ ''/env_setup_done''"
    "join ex_path ''spack.yaml'' = ex_path @ ''/spack.yaml''"
    using ex_path_facts by (simp_all add: join_def)
qed

lemma ex_ancestors:
  "ancestors ex_path = [''/srv'', ''/srv/env'']"
  "CHR ''/'' \<notin> set b \<Longrightarrow> ancestors (ex_path @ CHR ''/'' # b) = [''/srv'', ''/srv/env'', ex_path]"
proof -
  have "ancestors (''/srv/env'' @ CHR ''/'' # ex_hash) = [''/srv'', ''/srv/env'']"
    using ex_hash_facts(8)
    by (subst ancestors_child) (simp_all add: ancestors_def ancestors_from_no_slash)
  then show a: "ancestors ex_path = [''/srv'', ''/srv/env'']" by (simp add: ex_path_def)
  assume "CHR ''/'' \<notin> set b"
  with ancestors_child [OF ex_path_facts, of b] a
  show "ancestors (ex_path @ CHR ''/'' # b) = [''/srv'', ''/srv/env'', ex_path]"
    by (simp add: ancestors_from_no_slash)
qed

lemma ex_distinct:
  "ex_path @ b \<noteq> ''/srv''" "ex_path @ b \<noteq> ''/srv/env''" "ex_path @ b \<noteq> ''/work''"
  "ex_path @ b \<noteq> ''/tmp''" "ex_path @ b \<noteq> ''/work/spack.yaml''" "ex_path @ b \<noteq> ex_tmp"
  "''/srv'' \<noteq> ex_path @ b" "''/srv/env'' \<noteq> ex_path @ b" "''/work'' \<noteq> ex_path @ b"
  "''/tmp'' \<noteq> ex_path @ b" "''/work/spack.yaml'' \<noteq> ex_path @ b" "ex_tmp \<noteq> ex_path @ b"
  "ex_path \<noteq> ''/srv''" "ex_path \<noteq> ''/srv/env''" "ex_path \<noteq> ''/work''"
  "ex_path \<noteq> ''/tmp''" "ex_path \<noteq> ''/work/spack.yaml''" "ex_path \<noteq> ex_tmp"
  "''/srv'' \<noteq> ex_path" "''/srv/env'' \<noteq> ex_path" "''/work'' \<noteq> ex_path"
  "''/tmp'' \<noteq> ex_path" "''/work/spack.yaml'' \<noteq> ex_path" "ex_tmp \<noteq> ex_path"
  by (simp_all add: ex_path_def ex_tmp_def)

lemma ex_nodes_simps:
  "ex_nodes ''/srv'' = Some Dir" "ex_nodes ''/srv/env'' = None" "ex_nodes ''/tmp'' = Some Dir"
  "ex_nodes ''/work/spack.yaml'' = Some (File spec_yaml)" "ex_nodes ex_tmp = None"
  "ex_nodes ex_path = None" "ex_nodes (ex_path @ b) = None"
  by (simp_all add: ex_nodes_def ex_distinct) (simp_all add: ex_tmp_def)

lemma ex_at_or_under: "at_or_under ex_path ex_path" "at_or_under ex_path (ex_path @ CHR ''/'' # b)"
  by (simp_all add: at_or_under_def)

text \<open>The steps of the provisioning sequence before the first command, on a file system
  that has \<open>/srv\<close> but nothing at or below \<open>/srv/env\<close>.\<close>

lemma ex_setup:
  assumes "n ''/srv'' = Some Dir" "n ''/srv/env'' = None" "\<And>b. n (ex_path @ b) = None"
    "n f = Some (File spec_yaml)" "\<And>b. f \<noteq> ex_path @ b" "f \<noteq> ''/srv/env''"
  shows "provision_try os f ex_path \<lparr>nodes = n, trace = tr\<rparr>
       = then_do (for_cmd os [create_cmd ex_path (ex_path @ ''/spack.yaml''), activate_cmd ex_path] [])
           (\<lambda>out. Path_touch (ex_path @ ''/env_setup_done''))
           \<lparr>nodes = ex_setup_nodes n, trace = tr @ setup_events f ex_path\<rparr>"
proof -
  have n0: "n ex_path = None" using assms(3) [of "[]"] by simp
  have mk: "os_makedirs ex_path \<lparr>nodes = n, trace = tr\<rparr>
              = (Inr (), \<lparr>nodes = n(''/srv/env'' \<mapsto> Dir, ex_path \<mapsto> Dir), trace = tr @ [Makedirs ex_path]\<rparr>)"
    by (simp add: os_makedirs_def ex_ancestors assms n0 ex_distinct)
  have tc: "Path_touch (ex_path @ ''/env_setup_start'')
              \<lparr>nodes = n(''/srv/env'' \<mapsto> Dir, ex_path \<mapsto> Dir), trace = tr @ [Makedirs ex_path]\<rparr>
            = (Inr (), \<lparr>nodes = n(''/srv/env'' \<mapsto> Dir, ex_path \<mapsto> Dir,
                                   ex_path @ ''/env_setup_start'' \<mapsto> File []),
                        trace = tr @ [Makedirs ex_path, Touch (ex_path @ ''/env_setup_start'')]\<rparr>)"
    by (simp add: Path_touch_def ex_ancestors all_dirs_def assms ex_distinct)
  have cp: "shutil_copyfile f (ex_path @ ''/spack.yaml'')
              \<lparr>nodes = n(''/srv/env'' \<mapsto> Dir, ex_path \<mapsto> Dir,
                          ex_path @ ''/env_setup_start'' \<mapsto> File []),
               trace = tr @ [Makedirs ex_path, Touch (ex_path @ ''/env_setup_start'')]\<rparr>
            = (Inr (), \<lparr>nodes = ex_setup_nodes n, trace = tr @ setup_events f ex_path\<rparr>)"
    using assms(5) [of "''/spack.yaml''"] assms(5) [of "[]"] assms(5) [of "''/env_setup_start''"]
    by (simp add: shutil_copyfile_def ex_ancestors all_dirs_def assms ex_distinct
        ex_setup_nodes_def setup_events_def ex_join)
  show ?thesis
    by (simp add: provision_try_def ex_join then_do_def mk tc cp Let_def)
qed

lemma create_local:
  assumes "file e = LocalSourceFile f" and "path os e w = Inr (p, e1)"
    and "\<not> broken w p" and "\<not> os_path_exists w p"
  shows "create os e True w = (Inr p, e1, w)"
    and "create os e False w
           = (case provision os f p w of
                (Inl x, w3) \<Rightarrow> (Inl x, e1, w3)
              | (Inr u, w3) \<Rightarrow> (Inr p, e1, w3))"
  using assms
  by (simp_all add: create_def create_env_file_def check_broken_environment_def
      remove_tmp_file_def split: prod.splits sum.splits)

lemma ex_os_facts:
  "realpath ex_os = (\<lambda>p. p)" "read_source ex_os = ex_sources"
  "realpath ex_os_fail = (\<lambda>p. p)" "read_source ex_os_fail = ex_sources"
  "realpath ex_os_busy = (\<lambda>p. p)" "read_source ex_os_busy = ex_sources"
  "sh ex_os = ex_sh" "sh ex_os_fail = ex_sh_fail" "sh ex_os_busy = ex_sh_busy"
  "undeletable ex_os = []" "undeletable ex_os_fail = []"
  "undeletable ex_os_busy = [ex_path @ ''/.nfs0001'']"
  "tempdir ex_os = ''/tmp''" "tmp_random ex_os = [''8k2_xq0a'']"
  "tempdir ex_os_fail = ''/tmp''" "tmp_random ex_os_fail = [''8k2_xq0a'']"
  by (simp_all add: ex_os_def ex_os_fail_def ex_os_busy_def)

lemma ex_env_facts:
  "coherent os ex_env" "file ex_env = LocalSourceFile ''/work/spack.yaml''"
  "priv_env_dir ex_env = ''/srv/env''"
  "ex_sources (LocalSourceFile ''/work/spack.yaml'') = Some spec_yaml"
  "coherent os ex_env_remote" "file ex_env_remote = OtherSourceFile ''https://example.org/spack.yaml''"
  "priv_env_dir ex_env_remote = ''/srv/env''"
  "ex_sources (OtherSourceFile ''https://example.org/spack.yaml'') = Some spec_yaml"
proof -
  show "coherent os ex_env" "coherent os ex_env_remote"
    by (simp_all add: ex_env_def ex_env_remote_def coherent_Env_init)
qed (simp_all add: ex_env_def ex_env_remote_def Env_init_def ex_persistence_def ex_sources_def)

lemma ex_short_facts:
  "join ''/srv/env'' (take 8 ex_hash) = ex_short" "ex_nodes ex_short = None"
  "ex_short \<noteq> ex_tmp" "ex_short \<noteq> ex_path" "ex_tmp \<noteq> ex_short" "ex_path \<noteq> ex_short"
  using ex_hash_facts(5,6)
  by (simp_all add: ex_short_def ex_join ex_nodes_def ex_tmp_def ex_path_def)

lemma ex_resolve:
  assumes "n ex_path = None" "n ex_short = None"
  shows "resolvePath \<lparr>nodes = n, trace = tr\<rparr> ''/srv/env'' ex_hash = ex_path"
  using assms by (simp add: resolvePath_def Let_def ex_join(1) ex_short_facts os_path_exists_def)

lemma ex_path_local:
  assumes "realpath os = (\<lambda>p. p)" "read_source os = ex_sources"
  shows "\<exists>e1. path os ex_env ex_world = Inr (ex_path, e1)"
proof -
  have "read_source os (file ex_env) = Some spec_yaml"
    by (simp add: assms ex_env_facts)
  from path_coherent [OF ex_env_facts(1) this, of ex_world] show ?thesis
    by (auto simp: assms ex_env_facts ex_hash_def [symmetric] ex_world_def ex_resolve
        ex_nodes_simps ex_short_facts)
qed

lemma ex_world_fresh: "\<not> broken ex_world ex_path" "\<not> os_path_exists ex_world ex_path"
  by (simp_all add: broken_def os_path_exists_def ex_world_def ex_join ex_nodes_simps)

lemma ex_provision_try_local:
  "provision_try os ''/work/spack.yaml'' ex_path ex_world
     = then_do (for_cmd os [create_cmd ex_path (ex_path @ ''/spack.yaml''), activate_cmd ex_path] [])
         (\<lambda>out. Path_touch (ex_path @ ''/env_setup_done''))
         \<lparr>nodes = ex_setup_nodes ex_nodes,
          trace = setup_events ''/work/spack.yaml'' ex_path\<rparr>"
  unfolding ex_world_def
  using ex_setup [of ex_nodes "''/work/spack.yaml''" os "[]"]
  by (simp add: ex_nodes_simps ex_distinct)

text \<open>The tool is missing: the first command fails and the directory is removed.\<close>

lemma ex_run_fail:
  "fst (create ex_os_fail ex_env False ex_world)
     = Inl (CreateSpackEnvironmentException
              (failure_message ''/work/spack.yaml'' ''spack: command not found''))"
  "trace (snd (snd (create ex_os_fail ex_env False ex_world)))
     = setup_events ''/work/spack.yaml'' ex_path
       @ [ShellExec (create_cmd ex_path (ex_path @ ''/spack.yaml'')) 127 ''spack: command not found'',
          Rmtree ex_path]"
  "nodes (snd (snd (create ex_os_fail ex_env False ex_world))) ex_path = None"
proof -
  from ex_path_local [of ex_os_fail] obtain e1 where
    p: "path ex_os_fail ex_env ex_world = Inr (ex_path, e1)"
    by (auto simp: ex_os_facts)
  have pr: "provision ex_os_fail ''/work/spack.yaml'' ex_path ex_world
      = (Inl (CreateSpackEnvironmentException
               (failure_message ''/work/spack.yaml'' ''spack: command not found'')),
         shutil_rmtree ex_os_fail ex_path
           \<lparr>nodes = ex_setup_nodes ex_nodes,
            trace = setup_events ''/work/spack.yaml'' ex_path
              @ [ShellExec (create_cmd ex_path (ex_path @ ''/spack.yaml'')) 127
                   ''spack: command not found'']\<rparr>)"
    by (simp add: provision_def ex_provision_try_local then_do_def shell_check_output_def
        ex_os_facts ex_sh_fail_def)
  note c = create_local(2) [OF ex_env_facts(2) p ex_world_fresh, unfolded pr]
  show "fst (create ex_os_fail ex_env False ex_world)
     = Inl (CreateSpackEnvironmentException
              (failure_message ''/work/spack.yaml'' ''spack: command not found''))"
    by (simp add: c)
  show "trace (snd (snd (create ex_os_fail ex_env False ex_world)))
     = setup_events ''/work/spack.yaml'' ex_path
       @ [ShellExec (create_cmd ex_path (ex_path @ ''/spack.yaml'')) 127 ''spack: command not found'',
          Rmtree ex_path]"
    by (simp add: c shutil_rmtree_def)
  show "nodes (snd (snd (create ex_os_fail ex_env False ex_world))) ex_path = None"
    by (simp add: c shutil_rmtree_def ex_setup_nodes_def ex_at_or_under blocked_def ex_os_facts)
qed

lemma coherent_content_update:
  "coherent os e \<Longrightarrow> read_source os (file e) = Some c \<Longrightarrow> coherent os (e\<lparr>priv_content := Some c\<rparr>)"
  by (auto simp: coherent_def split: option.splits)

lemma create_nonlocal:
  assumes "\<not> is_LocalSourceFile (file e) \<or> is_LocalGitFile (file e)"
    and "NamedTemporaryFile os ''.yaml'' w = (Inr t, w1)"
    and "content os e = Inr (c, e0)"
    and "w2 = w1\<lparr>nodes := (nodes w1)(t \<mapsto> File c)\<rparr>"
    and "path os e0 w2 = Inr (p, e1)"
    and "\<not> broken w2 p" and "\<not> os_path_exists w2 p"
  shows "create os e True w = (Inr p, e1, w2)"
    and "create os e False w
           = (case provision os t p w2 of
                (Inl x, w3) \<Rightarrow> (Inl x, e1, w3)
              | (Inr u, w3) \<Rightarrow>
                  (case os_remove os t w3 of
                     (Inl x, w4) \<Rightarrow> (Inl x, e1, w4)
                   | (Inr u, w4) \<Rightarrow> (Inr p, e1, w4)))"
  using assms
  by (simp_all add: create_def create_env_file_def check_broken_environment_def
      remove_tmp_file_def tmp_write_def split: prod.splits sum.splits)

text \<open>The tool fails after it left a file that cannot be removed: the directory stays.\<close>

lemma ex_run_busy:
  "fst (create ex_os_busy ex_env False ex_world)
     = Inl (CreateSpackEnvironmentException
              (failure_message ''/work/spack.yaml'' ''==> Error: install failed''))"
  "trace (snd (snd (create ex_os_busy ex_env False ex_world)))
     = setup_events ''/work/spack.yaml'' ex_path
       @ [ShellExec (create_cmd ex_path (ex_path @ ''/spack.yaml'')) 1 ''==> Error: install failed'',
          Rmtree ex_path]"
  "nodes (snd (snd (create ex_os_busy ex_env False ex_world))) ex_path = Some Dir"
proof -
  from ex_path_local [of ex_os_busy] obtain e1 where
    p: "path ex_os_busy ex_env ex_world = Inr (ex_path, e1)"
    by (auto simp: ex_os_facts)
  have pr: "provision ex_os_busy ''/work/spack.yaml'' ex_path ex_world
      = (Inl (CreateSpackEnvironmentException
               (failure_message ''/work/spack.yaml'' ''==> Error: install failed'')),
         shutil_rmtree ex_os_busy ex_path
           \<lparr>nodes = (ex_setup_nodes ex_nodes)(ex_path @ ''/.nfs0001'' \<mapsto> File []),
            trace = setup_events ''/work/spack.yaml'' ex_path
              @ [ShellExec (create_cmd ex_path (ex_path @ ''/spack.yaml'')) 1
                   ''==> Error: install failed'']\<rparr>)"
    by (simp add: provision_def ex_provision_try_local then_do_def shell_check_output_def
        ex_os_facts ex_sh_busy_def)
  note c = create_local(2) [OF ex_env_facts(2) p ex_world_fresh, unfolded pr]
  show "fst (create ex_os_busy ex_env False ex_world)
     = Inl (CreateSpackEnvironmentException
              (failure_message ''/work/spack.yaml'' ''==> Error: install failed''))"
    by (simp add: c)
  show "trace (snd (snd (create ex_os_busy ex_env False ex_world)))
     = setup_events ''/work/spack.yaml'' ex_path
       @ [ShellExec (create_cmd ex_path (ex_path @ ''/spack.yaml'')) 1 ''==> Error: install failed'',
          Rmtree ex_path]"
    by (simp add: c shutil_rmtree_def)
  show "nodes (snd (snd (create ex_os_busy ex_env False ex_world))) ex_path = Some Dir"
    by (simp add: c shutil_rmtree_def ex_setup_nodes_def ex_at_or_under blocked_def ex_os_facts)
qed

text \<open>The tool succeeds.\<close>

lemma ex_run_ok:
  "fst (create ex_os ex_env False ex_world) = Inr ex_path"
  "trace (snd (snd (create ex_os ex_env False ex_world)))
     = setup_events ''/work/spack.yaml'' ex_path
       @ [ShellExec (create_cmd ex_path (ex_path @ ''/spack.yaml'')) 0 ''==> done'',
          ShellExec (activate_cmd ex_path) 0 ''==> done'',
          Touch (ex_path @ ''/env_setup_done'')]"
  "nodes (snd (snd (create ex_os ex_env False ex_world)))
     = (ex_setup_nodes ex_nodes)(ex_path @ ''/env_setup_done'' \<mapsto> File [])"
proof -
  from ex_path_local [of ex_os] obtain e1 where
    p: "path ex_os ex_env ex_world = Inr (ex_path, e1)"
    by (auto simp: ex_os_facts)
  have pr: "provision ex_os ''/work/spack.yaml'' ex_path ex_world
      = (Inr (),
           \<lparr>nodes = (ex_setup_nodes ex_nodes)(ex_path @ ''/env_setup_done'' \<mapsto> File []),
            trace = setup_events ''/work/spack.yaml'' ex_path
              @ [ShellExec (create_cmd ex_path (ex_path @ ''/spack.yaml'')) 0 ''==> done'',
                 ShellExec (activate_cmd ex_path) 0 ''==> done'',
                 Touch (ex_path @ ''/env_setup_done'')]\<rparr>)"
    by (simp add: provision_def ex_provision_try_local then_do_def shell_check_output_def
        ex_os_facts ex_sh_def Path_touch_def ex_ancestors all_dirs_def ex_setup_nodes_def
        ex_distinct ex_nodes_simps)
  note c = create_local(2) [OF ex_env_facts(2) p ex_world_fresh, unfolded pr]
  show "fst (create ex_os ex_env False ex_world) = Inr ex_path"
    by (simp add: c)
  show "trace (snd (snd (create ex_os ex_env False ex_world)))
     = setup_events ''/work/spack.yaml'' ex_path
       @ [ShellExec (create_cmd ex_path (ex_path @ ''/spack.yaml'')) 0 ''==> done'',
          ShellExec (activate_cmd ex_path) 0 ''==> done'',
          Touch (ex_path @ ''/env_setup_done'')]"
    by (simp add: c)
  show "nodes (snd (snd (create ex_os ex_env False ex_world)))
     = (ex_setup_nodes ex_nodes)(ex_path @ ''/env_setup_done'' \<mapsto> File [])"
    by (simp add: c)
qed

text \<open>A remote source: the temporary file.\<close>

lemma ex_tmp_file:
  assumes "tempdir os = ''/tmp''" "tmp_random os = [''8k2_xq0a'']"
  shows "NamedTemporaryFile os ''.yaml'' ex_world
       = (Inr ex_tmp, \<lparr>nodes = ex_nodes(ex_tmp \<mapsto> File []), trace = [TmpFile ex_tmp]\<rparr>)"
proof -
  have j: "join ''/tmp'' (''tmp'' @ ''8k2_xq0a'' @ ''.yaml'') = ex_tmp"
    by (simp add: join_def ex_tmp_def)
  have a: "ancestors ex_tmp = [''/tmp'']"
    by (simp add: ancestors_def ex_tmp_def)
  show ?thesis
    unfolding NamedTemporaryFile_def assms
    by (simp add: j a all_dirs_def ex_world_def ex_nodes_simps del: append.simps)
qed

lemma ex_remote_prelude:
  assumes "realpath os = (\<lambda>p. p)" "read_source os = ex_sources"
    "tempdir os = ''/tmp''" "tmp_random os = [''8k2_xq0a'']"
  shows "\<exists>e1. create os ex_env_remote True ex_world = (Inr ex_path, e1, ex_world_tmp)
     \<and> create os ex_env_remote False ex_world
           = (case provision os ex_tmp ex_path ex_world_tmp of
                (Inl x, w3) \<Rightarrow> (Inl x, e1, w3)
              | (Inr u, w3) \<Rightarrow>
                  (case os_remove os ex_tmp w3 of
                     (Inl x, w4) \<Rightarrow> (Inl x, e1, w4)
                   | (Inr u, w4) \<Rightarrow> (Inr ex_path, e1, w4)))"
proof -
  have rs: "read_source os (file ex_env_remote) = Some spec_yaml"
    by (simp add: assms ex_env_facts)
  note ct = content_coherent [OF ex_env_facts(5) rs]
  have co: "coherent os (ex_env_remote\<lparr>priv_content := Some spec_yaml\<rparr>)"
    using ex_env_facts(5) rs by (rule coherent_content_update)
  have rs': "read_source os (file (ex_env_remote\<lparr>priv_content := Some spec_yaml\<rparr>)) = Some spec_yaml"
    using rs by simp
  have w2: "ex_world_tmp = \<lparr>nodes = ex_nodes(ex_tmp \<mapsto> File []), trace = [TmpFile ex_tmp]\<rparr>
               \<lparr>nodes := (nodes \<lparr>nodes = ex_nodes(ex_tmp \<mapsto> File []), trace = [TmpFile ex_tmp]\<rparr>)
                            (ex_tmp \<mapsto> File spec_yaml)\<rparr>"
    by (simp add: ex_world_tmp_def)
  from path_coherent [OF co rs', of ex_world_tmp] obtain e1 where
    p: "path os (ex_env_remote\<lparr>priv_content := Some spec_yaml\<rparr>) ex_world_tmp = Inr (ex_path, e1)"
    by (auto simp: assms ex_env_facts ex_hash_def [symmetric] ex_world_tmp_def ex_resolve
        ex_nodes_simps ex_short_facts ex_distinct)
  have fr: "\<not> broken ex_world_tmp ex_path" "\<not> os_path_exists ex_world_tmp ex_path"
    by (simp_all add: broken_def os_path_exists_def ex_world_tmp_def ex_join ex_nodes_simps
        ex_distinct)
  have nl: "\<not> is_LocalSourceFile (file ex_env_remote) \<or> is_LocalGitFile (file ex_env_remote)"
    by (simp add: ex_env_facts)
  from create_nonlocal [OF nl ex_tmp_file [OF assms(3,4)] ct w2 p fr]
  show ?thesis by blast
qed

lemma events_since_append: "trace w' = trace w @ evs \<Longrightarrow> events_since w w' = evs"
  by (simp add: events_since_def)

lemma create_env_file_cases:
  assumes "create_env_file os e w = (r0, e1, w1)"
  obtains
    (local) "is_LocalSourceFile (file e)" "\<not> is_LocalGitFile (file e)"
      "r0 = Inr (get_path_or_uri (file e), None)" "e1 = e" "w1 = w"
  | (no_tmp) x where "\<not> is_LocalSourceFile (file e) \<or> is_LocalGitFile (file e)"
      "NamedTemporaryFile os ''.yaml'' w = (Inl (OSError x), w)"
      "r0 = Inl (OSError x)" "e1 = e" "w1 = w"
  | (no_content) t x where "\<not> is_LocalSourceFile (file e) \<or> is_LocalGitFile (file e)"
      "NamedTemporaryFile os ''.yaml'' w = (Inr t, w1)" "content os e = Inl x"
      "r0 = Inl x" "e1 = e"
  | (tmp) t w0 c where "\<not> is_LocalSourceFile (file e) \<or> is_LocalGitFile (file e)"
      "NamedTemporaryFile os ''.yaml'' w = (Inr t, w0)" "content os e = Inr (c, e1)"
      "r0 = Inr (t, Some t)" "w1 = w0\<lparr>nodes := (nodes w0)(t \<mapsto> File c)\<rparr>"
proof (cases "\<not> is_LocalSourceFile (file e) \<or> is_LocalGitFile (file e)")
  case False
  with assms show ?thesis by (intro local) (auto simp: create_env_file_def)
next
  case nl: True
  obtain rt wt where nt: "NamedTemporaryFile os ''.yaml'' w = (rt, wt)" by fastforce
  show ?thesis
  proof (cases rt)
    case (Inl x)
    with NamedTemporaryFile_Inl [of os "''.yaml''" w x wt] nt obtain y where
      "x = OSError y" "wt = w" by auto
    with assms nl nt Inl show ?thesis by (intro no_tmp [of y]) (auto simp: create_env_file_def)
  next
    case (Inr t)
    show ?thesis
    proof (cases "content os e")
      case (Inl x)
      with assms nl nt Inr show ?thesis
        by (intro no_content [of t x]) (auto simp: create_env_file_def)
    next
      case (Inr ce)
      obtain c e0 where "ce = (c, e0)" by fastforce
      with assms nl nt \<open>rt = Inr t\<close> Inr show ?thesis
        by (intro tmp [of t wt c]) (auto simp: create_env_file_def tmp_write_def)
    qed
  qed
qed

lemma create_cases:
  assumes "create os e dryrun w = (r, e', w')"
  obtains
    (early) x r0 e1 where "create_env_file os e w = (r0, e1, w')" "r = Inl x"
      "r0 = Inl x \<or> (\<exists>f t. r0 = Inr (f, t) \<and> (path os e1 w' = Inl x \<or>
          (\<exists>p. path os e1 w' = Inr (p, e') \<and> broken w' p \<and> x = BrokenEnvironment p)))"
  | (dry) f t e1 p where "create_env_file os e w = (Inr (f, t), e1, w')"
      "path os e1 w' = Inr (p, e')" "\<not> broken w' p" "\<not> os_path_exists w' p" "dryrun"
      "r = Inr p"
  | (existing) f t e1 w1 p r4 where "create_env_file os e w = (Inr (f, t), e1, w1)"
      "path os e1 w1 = Inr (p, e')" "\<not> broken w1 p" "os_path_exists w1 p"
      "remove_tmp_file os t w1 = (r4, w')" "r = map_sum id (\<lambda>u. p) r4"
  | (provision_failed) f t e1 w1 p x where "create_env_file os e w = (Inr (f, t), e1, w1)"
      "path os e1 w1 = Inr (p, e')" "\<not> broken w1 p" "\<not> os_path_exists w1 p" "\<not> dryrun"
      "provision os f p w1 = (Inl x, w')" "r = Inl x"
  | (provisioned) f t e1 w1 p w3 r4 where "create_env_file os e w = (Inr (f, t), e1, w1)"
      "path os e1 w1 = Inr (p, e')" "\<not> broken w1 p" "\<not> os_path_exists w1 p" "\<not> dryrun"
      "provision os f p w1 = (Inr (), w3)"
      "remove_tmp_file os t w3 = (r4, w')" "r = map_sum id (\<lambda>u. p) r4"
proof -
  obtain r0 e1 w1 where cef: "create_env_file os e w = (r0, e1, w1)"
    by (metis prod.exhaust)
  show ?thesis
  proof (cases r0)
    case (Inl x)
    with assms cef show ?thesis by (intro early [of r0 e1 x]) (auto simp: create_def)
  next
    case (Inr ft)
    obtain f t where ft: "ft = (f, t)" by fastforce
    show ?thesis
    proof (cases "path os e1 w1")
      case (Inl x)
      with assms cef Inr ft show ?thesis
        by (intro early [of r0 e1 x]) (auto simp: create_def)
    next
      case pr: (Inr pe)
      obtain p e2 where pe: "pe = (p, e2)" by fastforce
      show ?thesis
      proof (cases "broken w1 p")
        case True
        with assms cef Inr ft pr pe show ?thesis
          by (intro early [of r0 e1 "BrokenEnvironment p"])
            (auto simp: create_def check_broken_environment_def)
      next
        case nb: False
        show ?thesis
        proof (cases "os_path_exists w1 p")
          case True
          obtain r4 w4 where rm: "remove_tmp_file os t w1 = (r4, w4)" by fastforce
          with assms cef Inr ft pr pe nb True show ?thesis
            by (intro existing [of f t e1 w1 p r4])
              (auto simp: create_def check_broken_environment_def split: sum.splits)
        next
          case ne: False
          show ?thesis
          proof (cases dryrun)
            case True
            with assms cef Inr ft pr pe nb ne show ?thesis
              by (intro dry [of f t e1 p])
                (auto simp: create_def check_broken_environment_def)
          next
            case nd: False
            obtain r3 w3 where pv: "provision os f p w1 = (r3, w3)" by fastforce
            show ?thesis
            proof (cases r3)
              case (Inl x)
              with assms cef \<open>r0 = Inr ft\<close> ft pr pe nb ne nd pv show ?thesis
                by (intro provision_failed [of f t e1 w1 p x])
                  (auto simp: create_def check_broken_environment_def)
            next
              case (Inr u)
              obtain r4 w4 where rm: "remove_tmp_file os t w3 = (r4, w4)" by fastforce
              with assms cef \<open>r0 = Inr ft\<close> ft pr pe nb ne nd pv Inr show ?thesis
                by (intro provisioned [of f t e1 w1 p w3 r4])
                  (auto simp: create_def check_broken_environment_def split: sum.splits)
            qed
          qed
        qed
      qed
    qed
  qed
qed

lemma provision_cases:
  assumes "provision os f p w = (r, w')"
  obtains
    (setup_failed) e where "r = Inl (OSError e)"
      "trace w' = trace w \<or> trace w' = trace w @ [Makedirs p]
        \<or> trace w' = trace w @ [Makedirs p, Touch (join p ''env_setup_start'')]"
  | (create_failed) st out w1 where "st \<noteq> 0"
      "r = Inl (CreateSpackEnvironmentException (failure_message f out))"
      "trace w1 = trace w @ setup_events f p
                 @ [ShellExec (create_cmd p (join p ''spack.yaml'')) st out]"
      "w' = shutil_rmtree os p w1"
  | (install_failed) o1 st out w1 where "st \<noteq> 0"
      "r = Inl (CreateSpackEnvironmentException (failure_message f out))"
      "trace w1 = trace w @ setup_events f p
                 @ [ShellExec (create_cmd p (join p ''spack.yaml'')) 0 o1,
                    ShellExec (activate_cmd p) st out]"
      "w' = shutil_rmtree os p w1"
  | (done_failed) e o1 o2 where "r = Inl (OSError e)"
      "trace w' = trace w @ setup_events f p
                 @ [ShellExec (create_cmd p (join p ''spack.yaml'')) 0 o1,
                    ShellExec (activate_cmd p) 0 o2]"
  | (completed) o1 o2 where "r = Inr ()"
      "trace w' = trace w @ setup_events f p
                 @ [ShellExec (create_cmd p (join p ''spack.yaml'')) 0 o1,
                    ShellExec (activate_cmd p) 0 o2,
                    Touch (join p ''env_setup_done'')]"
      "nodes w' (join p ''env_setup_done'') \<noteq> None"
      "all_dirs (nodes w') (ancestors (join p ''env_setup_done''))"
proof -
  obtain r1 w1 where t: "provision_try os f p w = (r1, w1)" by fastforce
  from provision_try_cases [OF t] consider
      (a) e where "r1 = Inl (OSError e)"
        "trace w1 = trace w \<or> trace w1 = trace w @ [Makedirs p]
          \<or> trace w1 = trace w @ [Makedirs p, Touch (join p ''env_setup_start'')]"
    | (b) st out where "st \<noteq> 0" "r1 = Inl (CalledProcessError out)"
        "trace w1 = trace w @ setup_events f p
                   @ [ShellExec (create_cmd p (join p ''spack.yaml'')) st out]"
    | (c) o1 st out where "st \<noteq> 0" "r1 = Inl (CalledProcessError out)"
        "trace w1 = trace w @ setup_events f p
                   @ [ShellExec (create_cmd p (join p ''spack.yaml'')) 0 o1,
                      ShellExec (activate_cmd p) st out]"
    | (d) e o1 o2 where "r1 = Inl (OSError e)"
        "trace w1 = trace w @ setup_events f p
                   @ [ShellExec (create_cmd p (join p ''spack.yaml'')) 0 o1,
                      ShellExec (activate_cmd p) 0 o2]"
    | (e) o1 o2 where "r1 = Inr ()"
        "trace w1 = trace w @ setup_events f p
                   @ [ShellExec (create_cmd p (join p ''spack.yaml'')) 0 o1,
                      ShellExec (activate_cmd p) 0 o2,
                      Touch (join p ''env_setup_done'')]"
        "nodes w1 (join p ''env_setup_done'') \<noteq> None"
        "all_dirs (nodes w1) (ancestors (join p ''env_setup_done''))"
    by blast
  then show ?thesis
  proof cases
    case a
    with assms t show ?thesis by (intro setup_failed [of e]) (auto simp: provision_def)
  next
    case b
    with assms t show ?thesis by (intro create_failed [of st out w1]) (auto simp: provision_def)
  next
    case c
    with assms t show ?thesis by (intro install_failed [of st out w1 o1]) (auto simp: provision_def)
  next
    case d
    with assms t show ?thesis by (intro done_failed [of e o1 o2]) (auto simp: provision_def)
  next
    case e
    with assms t show ?thesis by (intro completed [of o1 o2]) (auto simp: provision_def)
  qed
qed

lemma trace_shutil_rmtree: "trace (shutil_rmtree os p w) = trace w @ [Rmtree p]"
  by (simp add: shutil_rmtree_def)

lemma create_env_file_trace:
  assumes "create_env_file os e w = (r0, e1, w1)"
  shows "trace w1 = trace w \<or> (\<exists>t. trace w1 = trace w @ [TmpFile t])"
  using assms
  by (cases rule: create_env_file_cases) (auto dest!: NamedTemporaryFile_Inr)

lemma remove_tmp_file_cases:
  assumes "remove_tmp_file os t w = (r4, w')"
  shows "(r4 = Inr () \<and> (t = None \<and> w' = w
            \<or> (\<exists>x. t = Some x \<and> trace w' = trace w @ [Remove x] \<and> nodes w' = (nodes w)(x := None))))
       \<or> (\<exists>x. r4 = Inl (OSError x) \<and> w' = w)"
  using assms
  by (auto simp: remove_tmp_file_def os_remove_def split: option.splits node.splits if_splits)

lemma sentinels_distinct: "join p ''env_setup_start'' \<noteq> join p ''env_setup_done''"
  by (simp add: join_def)

lemma provision_order:
  assumes "provision os f p w = (r, w')" and "trace w' = trace w @ b @ ev # a"
  shows "((\<exists>cmd st out. ev = ShellExec cmd st out)
            \<longrightarrow> Makedirs p \<in> set b \<and> Touch (join p ''env_setup_start'') \<in> set b)
       \<and> (ev = Touch (join p ''env_setup_done'')
            \<longrightarrow> (\<exists>o1 o2. ShellExec (create_cmd p (join p ''spack.yaml'')) 0 o1 \<in> set b
                        \<and> ShellExec (activate_cmd p) 0 o2 \<in> set b)
                \<and> (\<forall>cmd st out. ShellExec cmd st out \<in> set b \<longrightarrow> st = 0)
                \<and> a = [] \<and> r = Inr ())
       \<and> (\<forall>q. ev = Touch q
              \<longrightarrow> Makedirs p \<in> set b
                  \<and> (q = join p ''env_setup_start'' \<or> q = join p ''env_setup_done''))
       \<and> (\<forall>q. ev = Makedirs q \<longrightarrow> q = p \<and> b = [])
       \<and> (\<forall>q. Makedirs q \<in> set b \<longrightarrow> q = p)"
  using assms(1)
proof (cases rule: provision_cases)
  case (setup_failed e)
  with assms(2) sentinels_distinct [of p] show ?thesis
    by (auto simp: append_eq_Cons_conv Cons_eq_append_conv)
next
  case (create_failed st out w1)
  with assms(2) sentinels_distinct [of p] show ?thesis
    by (auto simp: trace_shutil_rmtree setup_events_def append_eq_Cons_conv Cons_eq_append_conv)
next
  case (install_failed o1 st out w1)
  with assms(2) sentinels_distinct [of p] show ?thesis
    by (auto simp: trace_shutil_rmtree setup_events_def append_eq_Cons_conv Cons_eq_append_conv)
next
  case (done_failed e o1 o2)
  with assms(2) sentinels_distinct [of p] show ?thesis
    by (auto simp: setup_events_def append_eq_Cons_conv Cons_eq_append_conv)
next
  case (completed o1 o2)
  with assms(2) sentinels_distinct [of p] show ?thesis
    by (auto simp: setup_events_def append_eq_Cons_conv Cons_eq_append_conv)
qed

lemma provision_trace_extends:
  assumes "provision os f p w = (r, w')"
  shows "\<exists>mid. trace w' = trace w @ mid"
  using assms by (cases rule: provision_cases) (auto simp: trace_shutil_rmtree)

lemma snoc_decomp:
  assumes "b @ ev # a = xs @ [y]"
  shows "(a = [] \<and> ev = y \<and> b = xs) \<or> (\<exists>a'. a = a' @ [y] \<and> b @ ev # a' = xs)"
  using assms by (cases a rule: rev_cases) auto

lemma create_event_split:
  assumes "create os e dryrun w = (r, e', w')"
    and "events_since w w' = before @ ev # after"
  shows "(\<exists>t. ev = TmpFile t) \<or> (\<exists>t. ev = Remove t)
       \<or> (\<exists>pre b a f p w1 r3 w3. before = pre @ b \<and> (pre = [] \<or> (\<exists>t. pre = [TmpFile t]))
             \<and> provision os f p w1 = (r3, w3) \<and> trace w3 = trace w1 @ b @ ev # a)"
  using assms(1)
proof (cases rule: create_cases)
  case (early x r0 e1)
  from create_env_file_trace [OF early(1)] assms(2) show ?thesis
    by (auto simp: events_since_def Cons_eq_append_conv append_eq_Cons_conv)
next
  case (dry f t e1 p)
  from create_env_file_trace [OF dry(1)] assms(2) show ?thesis
    by (auto simp: events_since_def Cons_eq_append_conv append_eq_Cons_conv)
next
  case (existing f t e1 w1 p r4)
  from create_env_file_trace [OF existing(1)] remove_tmp_file_cases [OF existing(5)] assms(2)
  show ?thesis
    by (auto simp: events_since_def Cons_eq_append_conv append_eq_Cons_conv)
next
  case (provision_failed f t e1 w1 p x)
  from provision_trace_extends [OF provision_failed(6)] obtain mid where
    mid: "trace w' = trace w1 @ mid" by blast
  from create_env_file_trace [OF provision_failed(1)] obtain pre where
    pre: "trace w1 = trace w @ pre" "pre = [] \<or> (\<exists>t. pre = [TmpFile t])" by auto
  from assms(2) mid pre have d: "before @ ev # after = pre @ mid"
    by (simp add: events_since_def)
  from pre(2) show ?thesis
  proof
    assume "pre = []"
    with d mid provision_failed(6) show ?thesis by force
  next
    assume "\<exists>t. pre = [TmpFile t]"
    then obtain t' where t': "pre = [TmpFile t']" by blast
    show ?thesis
    proof (cases before)
      case Nil
      with d t' show ?thesis by simp
    next
      case (Cons x b)
      with d t' have "before = pre @ b" "mid = b @ ev # after" by simp_all
      with mid provision_failed(6) pre(2) show ?thesis by blast
    qed
  qed
next
  case (provisioned f t e1 w1 p w3 r4)
  from provision_trace_extends [OF provisioned(6)] obtain mid where
    mid: "trace w3 = trace w1 @ mid" by blast
  from create_env_file_trace [OF provisioned(1)] obtain pre where
    pre: "trace w1 = trace w @ pre" "pre = [] \<or> (\<exists>t. pre = [TmpFile t])" by auto
  from remove_tmp_file_cases [OF provisioned(7)] have
    "trace w' = trace w3 \<or> (\<exists>x. trace w' = trace w3 @ [Remove x])" by auto
  then have "(\<exists>t. ev = Remove t) \<or> (\<exists>a. before @ ev # a = pre @ mid)"
  proof
    assume "trace w' = trace w3"
    with assms(2) mid pre show ?thesis by (simp add: events_since_def)
  next
    assume "\<exists>x. trace w' = trace w3 @ [Remove x]"
    then obtain x where "trace w' = trace w3 @ [Remove x]" by blast
    with assms(2) mid pre have "before @ ev # after = (pre @ mid) @ [Remove x]"
      by (simp add: events_since_def)
    from snoc_decomp [OF this] show ?thesis by auto
  qed
  then show ?thesis
  proof
    assume "\<exists>t. ev = Remove t"
    then show ?thesis by simp
  next
    assume "\<exists>a. before @ ev # a = pre @ mid"
    then obtain a where d: "before @ ev # a = pre @ mid" by blast
    from pre(2) show ?thesis
    proof
      assume "pre = []"
      with d mid provisioned(6) show ?thesis by force
    next
      assume "\<exists>t. pre = [TmpFile t]"
      then obtain t' where t': "pre = [TmpFile t']" by blast
      show ?thesis
      proof (cases before)
        case Nil
        with d t' show ?thesis by simp
      next
        case (Cons x b)
        with d t' have "before = pre @ b" "mid = b @ ev # a" by simp_all
        with mid provisioned(6) pre(2) show ?thesis by blast
      qed
    qed
  qed
qed

section \<open>The claims\<close>

text \<open>
  C7. For every specification and every state, \<open>create_archive\<close> fails with the
  \<open>WorkflowError\<close> that says archives are not supported; it attempts nothing and leaves the
  file system and the trace of effects as they were.
\<close>

theorem create_archive_unsupported:
  "create_archive self w = (Inl (WorkflowError ''spack does not support environment archive.''), w)"
  by (simp add: create_archive_def)

text \<open>
  C9. Two environment handles compare equal iff their specification source files are the
  same declared source; equal content does not make them equal, and no other attribute
  (content, directory, caches) takes part. An object that is not an \<open>Env\<close> is never equal.
\<close>

theorem Env_eq_source_identity:
  "(Env_eq a (EnvObject b) \<longleftrightarrow> file a = file b)
   \<and> (Env_eq (a\<lparr>file := f, priv_content := c\<rparr>) (EnvObject (b\<lparr>file := g, priv_content := c\<rparr>))
        \<longleftrightarrow> f = g)
   \<and> \<not> Env_eq a OtherObject"
  by simp

text \<open>
  C1, as amended. For two environment objects whose caches agree with their sources, the
  hash is the lowercase hexadecimal MD5 digest (32 digits) of the bytes of the canonical
  (\<open>realpath\<close>) target root directory followed by the raw content. Equal canonical roots
  and equal contents give equal hashes. Two hashes are equal exactly when the MD5 digests
  of the two concatenations are, so different roots or contents need not give different
  hashes.
\<close>

theorem hash_is_digest_of_root_and_content:
  assumes "coherent os e1" and "coherent os e2"
    and "read_source os (file e1) = Some c1" and "read_source os (file e2) = Some c2"
  shows "map_sum id fst (hash os e1)
           = Inr (hexdigest (md5 (encode (realpath os (priv_env_dir e1)) @ c1)))
       \<and> hexstr (hexdigest (md5 (encode (realpath os (priv_env_dir e1)) @ c1)))
       \<and> length (hexdigest (md5 (encode (realpath os (priv_env_dir e1)) @ c1))) = 32
       \<and> (realpath os (priv_env_dir e1) = realpath os (priv_env_dir e2) \<and> c1 = c2
            \<longrightarrow> map_sum id fst (hash os e1) = map_sum id fst (hash os e2))
       \<and> (map_sum id fst (hash os e1) = map_sum id fst (hash os e2)
            \<longleftrightarrow> md5 (encode (realpath os (priv_env_dir e1)) @ c1)
                = md5 (encode (realpath os (priv_env_dir e2)) @ c2))"
proof -
  from hash_coherent [OF assms(1,3)] hash_coherent [OF assms(2,4)]
  have h: "map_sum id fst (hash os e1) = Inr (identityHash (realpath os (priv_env_dir e1)) c1)"
    "map_sum id fst (hash os e2) = Inr (identityHash (realpath os (priv_env_dir e2)) c2)"
    by auto
  show ?thesis
    unfolding h using hexdigest_inj
    by (auto simp: identityHash_def encode_def hexstr_hexdigest length_md5_hex)
qed

theorem hash_is_digest_of_root_and_content_witness:
  "coherent ex_os ex_env \<and> coherent ex_os ex_env_copy
   \<and> read_source ex_os (file ex_env) = Some spec_yaml
   \<and> read_source ex_os (file ex_env_copy) = Some spec_yaml
   \<and> file ex_env \<noteq> file ex_env_copy
   \<and> realpath ex_os (priv_env_dir ex_env) = realpath ex_os (priv_env_dir ex_env_copy)
   \<and> map_sum id fst (hash ex_os ex_env) = Inr (hexdigest (md5 (''/srv/env'' @ spec_yaml)))
   \<and> map_sum id fst (hash ex_os ex_env) = map_sum id fst (hash ex_os ex_env_copy)"
proof -
  have c: "coherent ex_os ex_env" "coherent ex_os ex_env_copy"
    by (simp_all add: ex_env_def ex_env_copy_def coherent_Env_init)
  have r: "read_source ex_os (file ex_env) = Some spec_yaml"
    "read_source ex_os (file ex_env_copy) = Some spec_yaml"
    by (simp_all add: ex_os_def ex_env_def ex_env_copy_def Env_init_def ex_sources_def)
  have d: "priv_env_dir ex_env = ''/srv/env''" "priv_env_dir ex_env_copy = ''/srv/env''"
    "realpath ex_os = (\<lambda>p. p)" "file ex_env \<noteq> file ex_env_copy"
    by (simp_all add: ex_os_def ex_env_def ex_env_copy_def Env_init_def ex_persistence_def)
  from hash_is_digest_of_root_and_content [OF c r] c r d show ?thesis
    by (auto simp: encode_def)
qed

text \<open>
  The claim as stated fails: the root \<open>/srv/env\<close> with a content that starts with \<open>s\<close>,
  and the root \<open>/srv/envs\<close> with the rest of that content, feed MD5 the same bytes.
\<close>

theorem hash_collision_counterexample:
  "realpath ex_os (priv_env_dir ex_env) \<noteq> realpath ex_os (priv_env_dir ex_env_shifted)
   \<and> read_source ex_os (file ex_env) \<noteq> read_source ex_os (file ex_env_shifted)
   \<and> map_sum id fst (hash ex_os ex_env) = Inr (hexdigest (md5 (''/srv/envs'' @ tl spec_yaml)))
   \<and> map_sum id fst (hash ex_os ex_env_shifted) = Inr (hexdigest (md5 (''/srv/envs'' @ tl spec_yaml)))"
  by (simp add: ex_os_def ex_env_def ex_env_shifted_def Env_init_def ex_persistence_def
      ex_sources_def spec_yaml_def hash_def content_def encode_def Let_def)

text \<open>
  C4. With \<open>h\<close> the hash, \<open>fullPath\<close> the root joined with \<open>h\<close> and \<open>shortPath\<close> the root
  joined with the first 8 characters of \<open>h\<close>: \<open>path\<close> returns \<open>fullPath\<close> whenever
  \<open>fullPath\<close> exists or \<open>shortPath\<close> does not, and returns \<open>shortPath\<close> exactly when
  \<open>shortPath\<close> exists and \<open>fullPath\<close> does not. The attribute \<open>_path\<close> is not written, and
  a later call on the same object decides by the file system it is given then.
\<close>

theorem path_resolution_rule:
  assumes "coherent os self" and "read_source os (file self) = Some c"
    and "h = hexdigest (md5 (encode (realpath os (priv_env_dir self)) @ c))"
    and "fullPath = join (priv_env_dir self) h"
    and "shortPath = join (priv_env_dir self) (take 8 h)"
  shows "(os_path_exists w fullPath \<or> \<not> os_path_exists w shortPath
            \<longrightarrow> map_sum id fst (path os self w) = Inr fullPath)
       \<and> (map_sum id fst (path os self w) = Inr shortPath
            \<longleftrightarrow> os_path_exists w shortPath \<and> \<not> os_path_exists w fullPath)
       \<and> (\<exists>self1. path os self w
                     = Inr (if os_path_exists w fullPath \<or> \<not> os_path_exists w shortPath
                            then fullPath else shortPath, self1)
               \<and> priv_path self1 = priv_path self
               \<and> (\<forall>w2. map_sum id fst (path os self1 w2)
                          = Inr (if os_path_exists w2 fullPath \<or> \<not> os_path_exists w2 shortPath
                                 then fullPath else shortPath)))"
proof -
  have h: "h = identityHash (realpath os (priv_env_dir self)) c"
    using assms(3) by (simp add: identityHash_def encode_def)
  have neq: "shortPath \<noteq> fullPath"
    unfolding assms(4,5) h by (rule short_neq_full)
  from path_coherent [OF assms(1,2), of w] obtain self1 where
    p: "path os self w = Inr (resolvePath w (priv_env_dir self) h, self1)"
    and s1: "coherent os self1" "file self1 = file self" "priv_env_dir self1 = priv_env_dir self"
      "priv_path self1 = priv_path self"
    unfolding h by blast
  have r: "resolvePath v (priv_env_dir self) h
             = (if os_path_exists v fullPath \<or> \<not> os_path_exists v shortPath
                then fullPath else shortPath)" for v
    by (simp add: resolvePath_def Let_def assms(4,5))
  have later: "map_sum id fst (path os self1 w2)
                 = Inr (if os_path_exists w2 fullPath \<or> \<not> os_path_exists w2 shortPath
                        then fullPath else shortPath)" for w2
  proof -
    from assms(2) s1 have "read_source os (file self1) = Some c" by simp
    from path_coherent [OF s1(1) this, of w2] obtain self2 where
      "path os self1 w2
         = Inr (resolvePath w2 (priv_env_dir self1)
                  (identityHash (realpath os (priv_env_dir self1)) c), self2)"
      by blast
    then show ?thesis by (simp add: s1(3) h [symmetric] r)
  qed
  from p neq s1(4) later show ?thesis
    unfolding r by auto
qed

theorem path_resolution_rule_witness:
  "coherent ex_os ex_env \<and> read_source ex_os (file ex_env) = Some spec_yaml
   \<and> ex_hash = hexdigest (md5 (encode (realpath ex_os (priv_env_dir ex_env)) @ spec_yaml))
   \<and> os_path_exists ex_world_short (join (priv_env_dir ex_env) (take 8 ex_hash))
   \<and> \<not> os_path_exists ex_world_short (join (priv_env_dir ex_env) ex_hash)
   \<and> map_sum id fst (path ex_os ex_env ex_world_short)
       = Inr (join (priv_env_dir ex_env) (take 8 ex_hash))
   \<and> \<not> os_path_exists ex_world (join (priv_env_dir ex_env) (take 8 ex_hash))
   \<and> map_sum id fst (path ex_os ex_env ex_world) = Inr (join (priv_env_dir ex_env) ex_hash)"
proof -
  have c: "coherent ex_os ex_env"
    by (simp add: ex_env_def coherent_Env_init)
  have r: "read_source ex_os (file ex_env) = Some spec_yaml"
    by (simp add: ex_os_def ex_env_def Env_init_def ex_sources_def)
  have d: "priv_env_dir ex_env = ''/srv/env''"
    by (simp add: ex_env_def Env_init_def ex_persistence_def)
  have h: "ex_hash = hexdigest (md5 (encode (realpath ex_os (priv_env_dir ex_env)) @ spec_yaml))"
    by (simp add: ex_hash_def identityHash_def encode_def ex_os_def d)
  have hex: "hexstr ex_hash" "ex_hash \<noteq> []" "hexstr (take 8 ex_hash)" "take 8 ex_hash \<noteq> []"
    "take 8 ex_hash \<noteq> ex_hash"
    unfolding ex_hash_def
    by (rule hexstr_identityHash identityHash_nonempty take8_identityHash
        hexstr_take [OF hexstr_identityHash])+
  have j: "join ''/srv/env'' ex_hash = ''/srv/env/'' @ ex_hash"
    "join ''/srv/env'' (take 8 ex_hash) = ''/srv/env/'' @ take 8 ex_hash"
    using hex by (simp_all add: join_hex)
  have e1: "os_path_exists ex_world_short (join (priv_env_dir ex_env) (take 8 ex_hash))"
    by (simp add: d j os_path_exists_def ex_world_short_def)
  have len: "length ex_hash = 32"
    unfolding ex_hash_def by (rule length_identityHash)
  have e2: "\<not> os_path_exists ex_world_short (join (priv_env_dir ex_env) ex_hash)"
    using hex(5) [symmetric] by (simp add: d j os_path_exists_def ex_world_short_def ex_nodes_def)
  have e3: "\<not> os_path_exists ex_world (join (priv_env_dir ex_env) (take 8 ex_hash))"
    by (simp add: d j os_path_exists_def ex_world_def ex_nodes_def)
  from path_resolution_rule [OF c r h refl refl, of ex_world_short]
    path_resolution_rule [OF c r h refl refl, of ex_world] c r h e1 e2 e3
  show ?thesis by simp
qed

theorem sentinel_order:
  assumes "create os self dryrun w = (r, self', w')"
    and "events_since w w' = before @ ev # after"
  shows "((\<exists>cmd st out. ev = ShellExec cmd st out)
            \<longrightarrow> (\<exists>p. Makedirs p \<in> set before \<and> Touch (join p ''env_setup_start'') \<in> set before))
       \<and> (\<forall>p. Makedirs p \<in> set before \<and> ev = Touch (join p ''env_setup_done'')
              \<longrightarrow> (\<exists>o1 o2. ShellExec (create_cmd p (join p ''spack.yaml'')) 0 o1 \<in> set before
                          \<and> ShellExec (activate_cmd p) 0 o2 \<in> set before)
                  \<and> (\<forall>cmd st out. ShellExec cmd st out \<in> set before \<longrightarrow> st = 0))
       \<and> (\<forall>q. ev = Touch q
              \<longrightarrow> (\<exists>p. Makedirs p \<in> set before
                       \<and> (q = join p ''env_setup_start'' \<or> q = join p ''env_setup_done'')))"
proof -
  have "(\<exists>t. ev = TmpFile t) \<or> (\<exists>t. ev = Remove t)
       \<or> (\<exists>pre b a f p w1 r3 w3. before = pre @ b \<and> (pre = [] \<or> (\<exists>t. pre = [TmpFile t]))
             \<and> provision os f p w1 = (r3, w3) \<and> trace w3 = trace w1 @ b @ ev # a)"
    by (rule create_event_split [OF assms])
  then consider
      (other) "(\<exists>t. ev = TmpFile t) \<or> (\<exists>t. ev = Remove t)"
    | (prov) pre b a f p w1 r3 w3 where "before = pre @ b" "pre = [] \<or> (\<exists>t. pre = [TmpFile t])"
        "provision os f p w1 = (r3, w3)" "trace w3 = trace w1 @ b @ ev # a"
  proof (elim disjE exE conjE, goal_cases)
    case (1 t)
    then show ?case by simp
  next
    case (2 t)
    then show ?case by simp
  next
    case (3 pre b a f p w1 r3 w3)
    then show ?case by blast
  next
    case (4 pre b a f p w1 r3 w3 t)
    then show ?case by blast
  qed
  then show ?thesis
  proof cases
    case other
    then show ?thesis by auto
  next
    case prov
    note po = provision_order [OF prov(3,4)]
    note A = po [THEN conjunct1]
    note B = po [THEN conjunct2, THEN conjunct1]
    note C = po [THEN conjunct2, THEN conjunct2, THEN conjunct1]
    note E = po [THEN conjunct2, THEN conjunct2, THEN conjunct2, THEN conjunct2]
    have sub: "x \<in> set before" if "x \<in> set b" for x using that prov(1) by simp
    have mk: "q = p" if "Makedirs q \<in> set before" for q
    proof -
      from that prov(1,2) have "Makedirs q \<in> set b" by auto
      with E show ?thesis by simp
    qed
    have sh: "ShellExec cmd st out \<in> set b" if "ShellExec cmd st out \<in> set before" for cmd st out
      using that prov(1,2) by auto
    have c1: "(\<exists>cmd st out. ev = ShellExec cmd st out)
            \<longrightarrow> (\<exists>p. Makedirs p \<in> set before \<and> Touch (join p ''env_setup_start'') \<in> set before)"
    proof
      assume "\<exists>cmd st out. ev = ShellExec cmd st out"
      with A have "Makedirs p \<in> set b" "Touch (join p ''env_setup_start'') \<in> set b" by simp_all
      then have "Makedirs p \<in> set before \<and> Touch (join p ''env_setup_start'') \<in> set before"
        by (simp add: sub)
      then show "\<exists>p. Makedirs p \<in> set before \<and> Touch (join p ''env_setup_start'') \<in> set before"
        by (rule exI [of _ p])
    qed
    have c2: "(\<exists>o1 o2. ShellExec (create_cmd q (join q ''spack.yaml'')) 0 o1 \<in> set before
                          \<and> ShellExec (activate_cmd q) 0 o2 \<in> set before)
                  \<and> (\<forall>cmd st out. ShellExec cmd st out \<in> set before \<longrightarrow> st = 0)"
      if "Makedirs q \<in> set before \<and> ev = Touch (join q ''env_setup_done'')" for q
    proof -
      from that mk [of q] have ev: "ev = Touch (join p ''env_setup_done'')" and q: "q = p"
        by simp_all
      from B ev obtain o1 o2 where
        o: "ShellExec (create_cmd p (join p ''spack.yaml'')) 0 o1 \<in> set b"
          "ShellExec (activate_cmd p) 0 o2 \<in> set b"
        and z: "\<forall>cmd st out. ShellExec cmd st out \<in> set b \<longrightarrow> st = 0"
        by blast
      from o have "ShellExec (create_cmd p (join p ''spack.yaml'')) 0 o1 \<in> set before
          \<and> ShellExec (activate_cmd p) 0 o2 \<in> set before"
        by (simp add: sub)
      then have "\<exists>o1 o2. ShellExec (create_cmd q (join q ''spack.yaml'')) 0 o1 \<in> set before
                          \<and> ShellExec (activate_cmd q) 0 o2 \<in> set before"
        unfolding q by (intro exI [of _ o1] exI [of _ o2])
      moreover have "\<forall>cmd st out. ShellExec cmd st out \<in> set before \<longrightarrow> st = 0"
        using z sh by blast
      ultimately show ?thesis ..
    qed
    have c3: "\<forall>q. ev = Touch q
              \<longrightarrow> (\<exists>p. Makedirs p \<in> set before
                       \<and> (q = join p ''env_setup_start'' \<or> q = join p ''env_setup_done''))"
    proof (intro allI impI)
      fix q assume "ev = Touch q"
      with C have "Makedirs p \<in> set b"
        "q = join p ''env_setup_start'' \<or> q = join p ''env_setup_done''" by simp_all
      then have "Makedirs p \<in> set before
          \<and> (q = join p ''env_setup_start'' \<or> q = join p ''env_setup_done'')"
        by (simp add: sub)
      then show "\<exists>p. Makedirs p \<in> set before
          \<and> (q = join p ''env_setup_start'' \<or> q = join p ''env_setup_done'')"
        by (rule exI [of _ p])
    qed
    from c1 c2 c3 show ?thesis by (intro conjI allI impI) blast+
  qed
qed

end
